theory Spec2Isabelle
  imports Main "HOL-Library.AList"
begin

section \<open>Values, rows and the persistent store\<close>

text \<open>
  The controllers of \<^verbatim>\<open>src/controllers/auth.controller.ts\<close> and
  \<^verbatim>\<open>src/controllers/user.ts\<close> are embedded as functions on an explicit world state.
  JavaScript values that the handlers compare with \<^verbatim>\<open>===\<close> are kept apart by type:
  strict equality of a string and a number is false, which is equality of the datatype.
\<close>

datatype js_value = JUndefined | JBool bool | JNum int | JStr string

datatype SessionTokenType = Verification | Password

datatype Role = Admin | Standard

record user =
  user_id :: string
  username :: string
  email :: string
  name :: string
  password :: string
  role_id :: js_value
  verified :: bool

record token_row =
  token :: string
  token_user_id :: string
  token_type :: SessionTokenType
  created_at :: int

text \<open>What a handler hands to \<^verbatim>\<open>res\<close>: the body of \<^verbatim>\<open>send\<close>/\<^verbatim>\<open>json\<close>.
  \<open>Generic_error\<close> stands for \<^verbatim>\<open>{ message: errorMessages.generic }\<close>.\<close>

datatype body =
    No_body
  | Message string
  | Generic_error
  | Token_body string
  | NewToken_body string

text \<open>The effects of a request, in the order in which the handler performs them.\<close>

datatype event =
    Query string
  | Release
  | Log
  | Send_email string string string
  | Set_cookie string
  | Status_send nat body
  | Redirect string
  | SetAttributes string "(string \<times> js_value) list"

record world =
  users :: "user list"
  tokens :: "token_row list"
  saved :: "(user list \<times> token_row list) option"
  effects :: "event list"

text \<open>An error object as the handlers see it: only its \<^verbatim>\<open>code\<close> property is inspected.
  \<open>Thrown c\<close> is an error thrown by a collaborator with \<^verbatim>\<open>e.code = c\<close>;
  \<open>Token_error c\<close> is the \<^verbatim>\<open>new Error("Error creating a verification token. PG error code c")\<close>
  of the retry loops, which has no \<^verbatim>\<open>code\<close> property.\<close>

datatype error = Thrown js_value | Token_error js_value

fun code :: "error \<Rightarrow> js_value" where
  "code (Thrown c) = c"
| "code (Token_error c) = JUndefined"

text \<open>The collaborator calls of the handlers.\<close>

datatype call =
    Query_BEGIN
  | Query_COMMIT
  | User_create_call
  | User_findUsers_call
  | User_setAttributes_call
  | User_deleteUser_call
  | Token_create_call
  | Token_findTokens_call
  | Token_deleteToken_call
  | SendEmail_call

record request =
  body :: "(string \<times> string) list"
  params_token :: string
  params_id :: string
  headers_host :: string
  userId :: "string option"
  role :: "Role option"

text \<open>
  Everything a request does not determine is a field of the environment:
  the \<open>i\<close>-th value of \<^verbatim>\<open>tokenHandler.generateShortToken()\<close>, the clock, the injected
  failures of the collaborators (\<open>throws env c k = Some v\<close>: invocation \<open>k\<close> of call \<open>c\<close>
  throws an error with \<^verbatim>\<open>e.code = v\<close>; \<open>k\<close> is the iteration for the calls of a retry loop
  and the position of the call in the handler otherwise), \<^verbatim>\<open>bcrypt.hash\<close>, the identifier
  the user table assigns to a new row, the time to live of a password token and the
  two session-credential encoders of \<^verbatim>\<open>tokenHandler\<close>. The hash and the encoders are
  taken as functions that return.
\<close>

record env =
  generateShortToken :: "nat \<Rightarrow> string"
  throws :: "call \<Rightarrow> nat \<Rightarrow> js_value option"
  now :: int
  ttl :: int
  bcrypt_hash :: "string \<Rightarrow> string"
  new_user_id :: string
  generateUserAuthToken :: "user \<Rightarrow> request \<Rightarrow> string"
  generateUpdatedUserAuthToken :: "request \<Rightarrow> (string \<times> string) list \<Rightarrow> string"

definition emit :: "event \<Rightarrow> world \<Rightarrow> world" where
  "emit e w = w\<lparr>effects := effects w @ [e]\<rparr>"

subsection \<open>The store\<close>

text \<open>
  Modelled from the spec: the database layer (\<^verbatim>\<open>db.objects.User\<close>, \<^verbatim>\<open>db.objects.Token\<close>,
  \<^verbatim>\<open>db.pool\<close>) is not part of the sources. The spec gives its interface (section 6) and
  its constraints (section 3): user identifier, username and email are unique, the token
  string is unique and is the key of a token row, \<^verbatim>\<open>Token.create\<close> fails with a uniqueness
  violation on a collision. PostgreSQL reports a uniqueness violation as SQLSTATE 23505,
  which the driver delivers as the string \<^verbatim>\<open>e.code\<close>; this is the value the signup handler
  tests for. A transaction on the single client connection is a snapshot taken by
  \<^verbatim>\<open>BEGIN\<close>, dropped by \<^verbatim>\<open>COMMIT\<close> and restored by \<^verbatim>\<open>ROLLBACK\<close>.
\<close>

definition unique_violation :: js_value where
  "unique_violation = JStr ''23505''"

definition query_BEGIN :: "env \<Rightarrow> world \<Rightarrow> error + world" where
  "query_BEGIN env w =
     (case throws env Query_BEGIN 0 of
        Some c \<Rightarrow> Inl (Thrown c)
      | None \<Rightarrow> Inr (emit (Query ''BEGIN'') (w\<lparr>saved := Some (users w, tokens w)\<rparr>)))"

definition query_COMMIT :: "env \<Rightarrow> world \<Rightarrow> error + world" where
  "query_COMMIT env w =
     (case throws env Query_COMMIT 0 of
        Some c \<Rightarrow> Inl (Thrown c)
      | None \<Rightarrow> Inr (emit (Query ''COMMIT'') (w\<lparr>saved := None\<rparr>)))"

definition query_ROLLBACK :: "world \<Rightarrow> world" where
  "query_ROLLBACK w =
     emit (Query ''ROLLBACK'')
       (case saved w of
          None \<Rightarrow> w
        | Some (us, ts) \<Rightarrow> w\<lparr>users := us, tokens := ts, saved := None\<rparr>)"

definition User_create ::
  "env \<Rightarrow> string \<Rightarrow> string \<Rightarrow> string \<Rightarrow> js_value \<Rightarrow> string \<Rightarrow> world \<Rightarrow> error + user \<times> world" where
  "User_create env uname mail pw rid nm w =
     (case throws env User_create_call 0 of
        Some c \<Rightarrow> Inl (Thrown c)
      | None \<Rightarrow>
          if new_user_id env \<in> set (map user_id (users w))
             \<or> uname \<in> set (map username (users w))
             \<or> mail \<in> set (map email (users w))
          then Inl (Thrown unique_violation)
          else
            (let row = \<lparr>user_id = new_user_id env, username = uname, email = mail, name = nm,
                        password = pw, role_id = rid, verified = False\<rparr>
             in Inr (row, w\<lparr>users := users w @ [row]\<rparr>)))"

definition Token_create ::
  "env \<Rightarrow> nat \<Rightarrow> string \<Rightarrow> string \<Rightarrow> SessionTokenType \<Rightarrow> world \<Rightarrow> error + world" where
  "Token_create env k uid tok ty w =
     (case throws env Token_create_call k of
        Some c \<Rightarrow> Inl (Thrown c)
      | None \<Rightarrow>
          if tok \<in> set (map token (tokens w))
          then Inl (Thrown unique_violation)
          else Inr (w\<lparr>tokens := tokens w @
                 [\<lparr>token = tok, token_user_id = uid, token_type = ty, created_at = now env\<rparr>]\<rparr>))"

definition Token_findTokens ::
  "env \<Rightarrow> string \<Rightarrow> SessionTokenType \<Rightarrow> world \<Rightarrow> error + token_row list" where
  "Token_findTokens env tok ty w =
     (case throws env Token_findTokens_call 0 of
        Some c \<Rightarrow> Inl (Thrown c)
      | None \<Rightarrow> Inr (filter (\<lambda>r. token r = tok \<and> token_type r = ty) (tokens w)))"

definition Token_deleteToken :: "env \<Rightarrow> string \<Rightarrow> world \<Rightarrow> error + world" where
  "Token_deleteToken env tok w =
     (case throws env Token_deleteToken_call 0 of
        Some c \<Rightarrow> Inl (Thrown c)
      | None \<Rightarrow> Inr (w\<lparr>tokens := filter (\<lambda>r. token r \<noteq> tok) (tokens w)\<rparr>))"

definition User_findUsers_by_user_id :: "env \<Rightarrow> string \<Rightarrow> world \<Rightarrow> error + user list" where
  "User_findUsers_by_user_id env uid w =
     (case throws env User_findUsers_call 0 of
        Some c \<Rightarrow> Inl (Thrown c)
      | None \<Rightarrow> Inr (filter (\<lambda>u. user_id u = uid) (users w)))"

definition User_findUsers_by_email :: "env \<Rightarrow> string \<Rightarrow> world \<Rightarrow> error + user list" where
  "User_findUsers_by_email env mail w =
     (case throws env User_findUsers_call 0 of
        Some c \<Rightarrow> Inl (Thrown c)
      | None \<Rightarrow> Inr (filter (\<lambda>u. email u = mail) (users w)))"

text \<open>One column of an attribute bag written to a row. The handlers write strings to the
  four profile columns, a boolean to \<^verbatim>\<open>verified\<close> and any value to \<^verbatim>\<open>role_id\<close>.\<close>

fun set_attribute :: "string \<times> js_value \<Rightarrow> user \<Rightarrow> user" where
  "set_attribute (k, v) u =
     (if k = ''username'' then (case v of JStr s \<Rightarrow> u\<lparr>username := s\<rparr> | _ \<Rightarrow> u)
      else if k = ''email'' then (case v of JStr s \<Rightarrow> u\<lparr>email := s\<rparr> | _ \<Rightarrow> u)
      else if k = ''name'' then (case v of JStr s \<Rightarrow> u\<lparr>name := s\<rparr> | _ \<Rightarrow> u)
      else if k = ''password'' then (case v of JStr s \<Rightarrow> u\<lparr>password := s\<rparr> | _ \<Rightarrow> u)
      else if k = ''role_id'' then u\<lparr>role_id := v\<rparr>
      else if k = ''verified'' then (case v of JBool b \<Rightarrow> u\<lparr>verified := b\<rparr> | _ \<Rightarrow> u)
      else u)"

definition write_attributes :: "string \<Rightarrow> (string \<times> js_value) list \<Rightarrow> user list \<Rightarrow> user list" where
  "write_attributes uid attrs us =
     map (\<lambda>u. if user_id u = uid then fold set_attribute attrs u else u) us"

definition User_setAttributes ::
  "env \<Rightarrow> nat \<Rightarrow> string \<Rightarrow> (string \<times> js_value) list \<Rightarrow> world \<Rightarrow> error + world" where
  "User_setAttributes env k uid attrs w =
     (case throws env User_setAttributes_call k of
        Some c \<Rightarrow> Inl (Thrown c)
      | None \<Rightarrow>
          Inr (emit (SetAttributes uid attrs)
                 (w\<lparr>users := write_attributes uid attrs (users w)\<rparr>)))"

definition User_deleteUser :: "env \<Rightarrow> string \<Rightarrow> world \<Rightarrow> error + world" where
  "User_deleteUser env uid w =
     (case throws env User_deleteUser_call 0 of
        Some c \<Rightarrow> Inl (Thrown c)
      | None \<Rightarrow> Inr (w\<lparr>users := filter (\<lambda>u. user_id u \<noteq> uid) (users w)\<rparr>))"

definition sendEmail :: "env \<Rightarrow> string \<Rightarrow> string \<Rightarrow> string \<Rightarrow> world \<Rightarrow> error + world" where
  "sendEmail env subject to link w =
     (case throws env SendEmail_call 0 of
        Some c \<Rightarrow> Inl (Thrown c)
      | None \<Rightarrow> Inr (emit (Send_email subject to link) w))"

section \<open>The authentication controller\<close>

subsection \<open>Signup\<close>

text \<open>The loop of lines 55 to 68: \<open>i\<close> counts the iterations. Not returning is \<open>None\<close>.\<close>

partial_function (option) signup_token_loop ::
  "env \<Rightarrow> nat \<Rightarrow> string \<Rightarrow> world \<Rightarrow> (error + string \<times> world) option" where
  "signup_token_loop env i uid w =
     (let shortToken = generateShortToken env i in
      case Token_create env i uid shortToken Verification w of
        Inr w' \<Rightarrow> Some (Inr (shortToken, w'))
      | Inl e \<Rightarrow>
          if code e = JStr ''23505'' then signup_token_loop env (Suc i) uid w
          else Some (Inl (Token_error (code e))))"

definition sendVerificationEmail :: "env \<Rightarrow> request \<Rightarrow> user \<Rightarrow> string \<Rightarrow> world \<Rightarrow> error + world" where
  "sendVerificationEmail env req usr tok w =
     (let link = ''http://'' @ headers_host req @ ''/api/auth/verify/'' @ tok
      in sendEmail env ''Account Verification Request'' (email usr) link w)"

text \<open>
  The body of the \<^verbatim>\<open>try\<close> block of \<^verbatim>\<open>signup\<close>. The result is the value of
  \<^verbatim>\<open>transactionInProgress\<close> when the block is left, the error thrown (if any) and the world
  at that moment.
\<close>

definition signup_try :: "env \<Rightarrow> request \<Rightarrow> world \<Rightarrow> (bool \<times> error option \<times> world) option" where
  "signup_try env req w =
     (case (map_of (body req) ''username'', map_of (body req) ''email'',
            map_of (body req) ''password'', map_of (body req) ''name'') of
        (Some uname, Some mail, Some pw, Some nm) \<Rightarrow>
          (let hashedPassword = bcrypt_hash env pw in
           case query_BEGIN env w of
             Inl e \<Rightarrow> Some (False, Some e, w)
           | Inr w1 \<Rightarrow>
              (case User_create env uname mail hashedPassword (JNum 1) nm w1 of
                 Inl e \<Rightarrow> Some (True, Some e, w1)
               | Inr (newUser, w2) \<Rightarrow>
                  (case signup_token_loop env 0 (user_id newUser) w2 of
                     None \<Rightarrow> None
                   | Some (Inl e) \<Rightarrow> Some (True, Some e, w2)
                   | Some (Inr (emailVerificationToken, w3)) \<Rightarrow>
                      (case sendVerificationEmail env req newUser emailVerificationToken w3 of
                         Inl e \<Rightarrow> Some (True, Some e, w3)
                       | Inr w4 \<Rightarrow>
                          (case query_COMMIT env w4 of
                             Inl e \<Rightarrow> Some (True, Some e, w4)
                           | Inr w5 \<Rightarrow>
                               Some (False, None, emit (Status_send 204 No_body) w5))))))
      | _ \<Rightarrow>
          Some (False, None,
            emit (Status_send 400
              (Message ''Body must include username, email, password, and name'')) w))"

text \<open>\<^verbatim>\<open>catch\<close> logs and answers 500; \<^verbatim>\<open>finally\<close> then rolls back if the flag is set and
  releases the client.\<close>

definition catch_500 :: "world \<Rightarrow> world" where
  "catch_500 w = emit (Status_send 500 Generic_error) (emit Log w)"

definition signup :: "env \<Rightarrow> request \<Rightarrow> world \<Rightarrow> world option" where
  "signup env req w =
     (case signup_try env req w of
        None \<Rightarrow> None
      | Some (transactionInProgress, thrown, w1) \<Rightarrow>
          (let w2 = (case thrown of Some err \<Rightarrow> catch_500 w1 | None \<Rightarrow> w1);
               w3 = (if transactionInProgress then query_ROLLBACK w2 else w2)
           in Some (emit Release w3)))"

subsection \<open>Verification redemption\<close>

definition verify_try :: "env \<Rightarrow> request \<Rightarrow> world \<Rightarrow> world + world" where
  "verify_try env req w =
     (case Token_findTokens env (params_token req) Verification w of
        Inl e \<Rightarrow> Inl w
      | Inr [] \<Rightarrow> Inr (emit (Redirect ''/login'') w)
      | Inr (verifyToken # _) \<Rightarrow>
          (case User_findUsers_by_user_id env (token_user_id verifyToken) w of
             Inl e \<Rightarrow> Inl w
           | Inr [] \<Rightarrow> Inr (emit (Status_send 500 Generic_error) w)
           | Inr (usr # _) \<Rightarrow>
               (case User_setAttributes env 0 (user_id usr) [(''verified'', JBool True)] w of
                  Inl e \<Rightarrow> Inl w
                | Inr w1 \<Rightarrow>
                    (case Token_deleteToken env (token verifyToken) w1 of
                       Inl e \<Rightarrow> Inl w1
                     | Inr w2 \<Rightarrow> Inr (emit (Redirect ''/login'') w2)))))"

text \<open>A \<^verbatim>\<open>try\<close> block yields \<open>Inr\<close> the world when it completes and \<open>Inl\<close> the world at the
  moment an error is thrown; the \<^verbatim>\<open>catch\<close> block is the same in every handler.\<close>

definition catch_block :: "world + world \<Rightarrow> world" where
  "catch_block r = (case r of Inl w \<Rightarrow> catch_500 w | Inr w \<Rightarrow> w)"

definition verify :: "env \<Rightarrow> request \<Rightarrow> world \<Rightarrow> world" where
  "verify env req w = catch_block (verify_try env req w)"

subsection \<open>Recovery request\<close>

text \<open>The loop of lines 325 to 338. It compares \<^verbatim>\<open>e.code\<close> with the number 23505.\<close>

partial_function (option) reset_token_loop ::
  "env \<Rightarrow> nat \<Rightarrow> string \<Rightarrow> world \<Rightarrow> (error + string \<times> world) option" where
  "reset_token_loop env i uid w =
     (let shortToken = generateShortToken env i in
      case Token_create env i uid shortToken Password w of
        Inr w' \<Rightarrow> Some (Inr (shortToken, w'))
      | Inl e \<Rightarrow>
          if code e = JNum 23505 then reset_token_loop env (Suc i) uid w
          else Some (Inl (Token_error (code e))))"

definition sendPasswordResetEmail :: "env \<Rightarrow> request \<Rightarrow> user \<Rightarrow> world \<Rightarrow> (world + world) option" where
  "sendPasswordResetEmail env req usr w =
     (case reset_token_loop env 0 (user_id usr) w of
        None \<Rightarrow> None
      | Some (Inl e) \<Rightarrow> Some (Inl w)
      | Some (Inr (resetPasswordToken, w1)) \<Rightarrow>
          (let link = ''http://'' @ headers_host req @ ''/api/auth/recovery/verify/''
                       @ resetPasswordToken
           in case sendEmail env ''Password Recovery Request'' (email usr) link w1 of
                Inl e \<Rightarrow> Some (Inl w1)
              | Inr w2 \<Rightarrow> Some (Inr w2)))"

definition recovery_try :: "env \<Rightarrow> request \<Rightarrow> world \<Rightarrow> (world + world) option" where
  "recovery_try env req w =
     (case map_of (body req) ''email'' of
        None \<Rightarrow> Some (Inr (emit (Status_send 400 (Message ''Body must include email'')) w))
      | Some mail \<Rightarrow>
          (case User_findUsers_by_email env mail w of
             Inl e \<Rightarrow> Some (Inl w)
           | Inr [] \<Rightarrow> Some (Inr (emit (Redirect ''/recover/sent'') w))
           | Inr (usr # _) \<Rightarrow>
               (case sendPasswordResetEmail env req usr w of
                  None \<Rightarrow> None
                | Some (Inl w1) \<Rightarrow> Some (Inl w1)
                | Some (Inr w1) \<Rightarrow> Some (Inr (emit (Redirect ''/recover/sent'') w1)))))"

definition recovery :: "env \<Rightarrow> request \<Rightarrow> world \<Rightarrow> world option" where
  "recovery env req w = map_option catch_block (recovery_try env req w)"

subsection \<open>Recovery redemption\<close>

text \<open>
  Modelled from the spec: \<^verbatim>\<open>tokenHandler.isPasswordTokenExpired\<close> is not part of the
  sources. Section 4.2 makes it a function of \<open>now - createdAt\<close> and a fixed time to live,
  and section 8 puts the boundary on the rejecting side: a token is redeemable iff
  \<open>now - createdAt < TTL\<close>.
\<close>

definition isPasswordTokenExpired :: "env \<Rightarrow> token_row \<Rightarrow> bool" where
  "isPasswordTokenExpired env t = (\<not> now env - created_at t < ttl env)"

definition verifyRecovery_try :: "env \<Rightarrow> request \<Rightarrow> world \<Rightarrow> world + world" where
  "verifyRecovery_try env req w =
     (case Token_findTokens env (params_token req) Password w of
        Inl e \<Rightarrow> Inl w
      | Inr [] \<Rightarrow> Inr (emit (Status_send 400 Generic_error) w)
      | Inr (tok # _) \<Rightarrow>
          if isPasswordTokenExpired env tok
          then Inr (emit (Status_send 400 Generic_error) w)
          else Inr (emit (Redirect (''/recover/'' @ params_token req)) w))"

definition verifyRecovery :: "env \<Rightarrow> request \<Rightarrow> world \<Rightarrow> world" where
  "verifyRecovery env req w = catch_block (verifyRecovery_try env req w)"

definition processRecovery_try :: "env \<Rightarrow> request \<Rightarrow> string \<Rightarrow> world \<Rightarrow> world + world" where
  "processRecovery_try env req pw w =
     (case Token_findTokens env (params_token req) Password w of
        Inl e \<Rightarrow> Inl w
      | Inr [] \<Rightarrow> Inr (emit (Status_send 400 Generic_error) w)
      | Inr (tok # _) \<Rightarrow>
          if isPasswordTokenExpired env tok
          then Inr (emit (Status_send 400 Generic_error) w)
          else
            (case User_findUsers_by_user_id env (token_user_id tok) w of
               Inl e \<Rightarrow> Inl w
             | Inr [] \<Rightarrow> Inr (emit (Status_send 500 Generic_error) w)
             | Inr (usr # _) \<Rightarrow>
                 (let hashedPassword = bcrypt_hash env pw in
                  case User_setAttributes env 0 (token_user_id tok)
                         [(''password'', JStr hashedPassword)] w of
                    Inl e \<Rightarrow> Inl w
                  | Inr w1 \<Rightarrow>
                      (case Token_deleteToken env (params_token req) w1 of
                         Inl e \<Rightarrow> Inl w1
                       | Inr w2 \<Rightarrow>
                           (let authToken = generateUserAuthToken env usr req
                            in Inr (emit (Status_send 200 (Token_body authToken))
                                      (emit (Set_cookie authToken) w2)))))))"

definition processRecovery :: "env \<Rightarrow> request \<Rightarrow> world \<Rightarrow> world" where
  "processRecovery env req w =
     (case map_of (body req) ''password'' of
        None \<Rightarrow> emit (Status_send 400 (Message ''Body must include password'')) w
      | Some pw \<Rightarrow> catch_block (processRecovery_try env req pw w))"

section \<open>The user controller\<close>

text \<open>The \<^verbatim>\<open>forEach\<close> over the keys of the body (lines 36 to 44), one key per step.
  An object of string attributes is an association list; an assignment
  \<^verbatim>\<open>o[k] = v\<close> is \<open>AList.update k v o\<close>.\<close>

definition collect_attribute ::
  "string \<times> string \<Rightarrow> (string \<times> string) list \<times> (string \<times> string) list
     \<Rightarrow> (string \<times> string) list \<times> (string \<times> string) list" where
  "collect_attribute kv acc =
     (case (kv, acc) of ((attr, v), (newAttributes, newAdminAttributes)) \<Rightarrow>
        (if attr \<in> set [''username'', ''email'', ''name'', ''password'']
         then AList.update attr v newAttributes else newAttributes,
         if attr \<in> set [''roleId'']
         then AList.update ''role_id'' v newAdminAttributes else newAdminAttributes))"

definition hash_password :: "env \<Rightarrow> (string \<times> string) list \<Rightarrow> (string \<times> string) list" where
  "hash_password env newAttributes =
     (case map_of newAttributes ''password'' of
        None \<Rightarrow> newAttributes
      | Some pw \<Rightarrow> AList.update ''password'' (bcrypt_hash env pw) newAttributes)"

definition newAttributes_of :: "env \<Rightarrow> request \<Rightarrow> (string \<times> string) list" where
  "newAttributes_of env req = hash_password env (fst (fold collect_attribute (body req) ([], [])))"

definition newAdminAttributes_of :: "request \<Rightarrow> (string \<times> string) list" where
  "newAdminAttributes_of req = snd (fold collect_attribute (body req) ([], []))"

definition js_strings :: "(string \<times> string) list \<Rightarrow> (string \<times> js_value) list" where
  "js_strings attrs = map (\<lambda>(k, v). (k, JStr v)) attrs"

text \<open>Truthiness of an optional string: \<^verbatim>\<open>undefined\<close> and the empty string are falsy.\<close>

definition truthy :: "string option \<Rightarrow> bool" where
  "truthy v = (case v of None \<Rightarrow> False | Some s \<Rightarrow> s \<noteq> [])"

definition updateUser_try :: "env \<Rightarrow> request \<Rightarrow> world \<Rightarrow> world + world" where
  "updateUser_try env req w =
     (let isClientUser = (userId req = Some (params_id req));
          newAttributes = newAttributes_of env req;
          newAdminAttributes = newAdminAttributes_of req
      in
      case (if isClientUser \<and> newAttributes \<noteq> []
            then User_setAttributes env 0 (params_id req) (js_strings newAttributes) w
            else Inr w) of
        Inl e \<Rightarrow> Inl w
      | Inr w1 \<Rightarrow>
          (case (if role req = Some Admin \<and> newAdminAttributes \<noteq> []
                 then User_setAttributes env 1 (params_id req) (js_strings newAdminAttributes) w1
                 else Inr w1) of
             Inl e \<Rightarrow> Inl w1
           | Inr w2 \<Rightarrow>
               if truthy (map_of newAttributes ''username'')
               then
                 (let newToken = generateUpdatedUserAuthToken env req newAttributes
                  in Inr (emit (Status_send 200 (NewToken_body newToken))
                            (emit (Set_cookie newToken) w2)))
               else Inr (emit (Status_send 204 No_body) w2)))"

definition updateUser :: "env \<Rightarrow> request \<Rightarrow> world \<Rightarrow> world" where
  "updateUser env req w = catch_block (updateUser_try env req w)"

definition deleteUser_try :: "env \<Rightarrow> request \<Rightarrow> world \<Rightarrow> world + world" where
  "deleteUser_try env req w =
     (case User_deleteUser env (params_id req) w of
        Inl e \<Rightarrow> Inl w
      | Inr w1 \<Rightarrow> Inr (emit (Status_send 204 No_body) w1))"

definition deleteUser :: "env \<Rightarrow> request \<Rightarrow> world \<Rightarrow> world" where
  "deleteUser env req w = catch_block (deleteUser_try env req w)"

section \<open>Notions used in the statements\<close>

text \<open>An iteration of a retry loop is retried when \<^verbatim>\<open>Token.create\<close> throws and the test of
  the \<^verbatim>\<open>catch\<close> block holds: \<^verbatim>\<open>e.code === "23505"\<close> in \<^verbatim>\<open>signup\<close>,
  \<^verbatim>\<open>e.code === 23505\<close> in \<^verbatim>\<open>sendPasswordResetEmail\<close>. \<open>attempt\<close> is what an iteration
  that is not retried leaves the loop with.\<close>

definition signup_retries :: "env \<Rightarrow> string \<Rightarrow> world \<Rightarrow> nat \<Rightarrow> bool" where
  "signup_retries env uid w i =
     (case Token_create env i uid (generateShortToken env i) Verification w of
        Inl e \<Rightarrow> code e = JStr ''23505''
      | Inr w' \<Rightarrow> False)"

definition reset_retries :: "env \<Rightarrow> string \<Rightarrow> world \<Rightarrow> nat \<Rightarrow> bool" where
  "reset_retries env uid w i =
     (case Token_create env i uid (generateShortToken env i) Password w of
        Inl e \<Rightarrow> code e = JNum 23505
      | Inr w' \<Rightarrow> False)"

definition attempt :: "env \<Rightarrow> SessionTokenType \<Rightarrow> string \<Rightarrow> world \<Rightarrow> nat \<Rightarrow> error + string \<times> world" where
  "attempt env ty uid w i =
     (case Token_create env i uid (generateShortToken env i) ty w of
        Inr w' \<Rightarrow> Inr (generateShortToken env i, w')
      | Inl e \<Rightarrow> Inl (Token_error (code e)))"

text \<open>\<open>happens_before a b es\<close>: the effect \<open>a\<close> occurs in \<open>es\<close> and \<open>b\<close> occurs after its
  first occurrence.\<close>

definition happens_before :: "event \<Rightarrow> event \<Rightarrow> event list \<Rightarrow> bool" where
  "happens_before a b es = (b \<in> set (drop 1 (dropWhile (\<lambda>e. e \<noteq> a) es)))"

text \<open>The part of the effects that the client sees.\<close>

fun is_response :: "event \<Rightarrow> bool" where
  "is_response (Status_send s b) = True"
| "is_response (Redirect l) = True"
| "is_response (Set_cookie c) = True"
| "is_response e = False"

definition responses :: "world \<Rightarrow> event list" where
  "responses w = filter is_response (effects w)"

text \<open>The calls of \<^verbatim>\<open>User.setAttributes\<close> among some effects, and the columns of the
  profile attribute set.\<close>

fun persisted :: "event \<Rightarrow> (string \<times> (string \<times> js_value) list) list" where
  "persisted (SetAttributes uid attrs) = [(uid, attrs)]"
| "persisted e = []"

definition persistence_calls :: "event list \<Rightarrow> (string \<times> (string \<times> js_value) list) list" where
  "persistence_calls es = concat (map persisted es)"

definition profile_keys :: "string set" where
  "profile_keys = {''username'', ''email'', ''name'', ''password''}"

section \<open>Example requests, environments and stores\<close>

text \<open>
  The environment \<open>env_plain\<close> has no failing collaborator; it generates the short tokens
  \<^verbatim>\<open>t0\<close>, \<^verbatim>\<open>t1\<close>, \<^verbatim>\<open>t2\<close>, \<^verbatim>\<open>t2\<close>, ... and its clock stands at 5000 with a time
  to live of 3600. The others differ from it in one field. The store \<open>w_two_tokens\<close> holds
  the unverified user \<^verbatim>\<open>al\<close> with a Verification token \<^verbatim>\<open>t0\<close> and a Password token
  \<^verbatim>\<open>t1\<close> issued at 1400, whose age at 5000 is exactly the time to live.
\<close>

definition env_plain :: env where
  "env_plain =
     \<lparr>generateShortToken = (\<lambda>i. if i = 0 then ''t0'' else if i = 1 then ''t1'' else ''t2''),
      throws = (\<lambda>c k. None),
      now = 5000,
      ttl = 3600,
      bcrypt_hash = (\<lambda>p. ''hash:'' @ p),
      new_user_id = ''u1'',
      generateUserAuthToken = (\<lambda>u r. ''session:'' @ username u),
      generateUpdatedUserAuthToken =
        (\<lambda>r a. ''session:'' @ (case map_of a ''username'' of Some n \<Rightarrow> n | None \<Rightarrow> []))\<rparr>"

definition env_same_token :: env where
  "env_same_token = env_plain\<lparr>generateShortToken := (\<lambda>i. ''t0'')\<rparr>"

definition w_empty :: world where
  "w_empty = \<lparr>users = [], tokens = [], saved = None, effects = []\<rparr>"

definition al :: user where
  "al = \<lparr>user_id = ''u0'', username = ''al'', email = ''a@x.com'', name = ''Al'',
         password = ''hash:p'', role_id = JNum 1, verified = False\<rparr>"

definition w_two_tokens :: world where
  "w_two_tokens =
     \<lparr>users = [al],
      tokens = [\<lparr>token = ''t0'', token_user_id = ''u0'', token_type = Verification, created_at = 0\<rparr>,
                \<lparr>token = ''t1'', token_user_id = ''u0'', token_type = Password, created_at = 1400\<rparr>],
      saved = None, effects = []\<rparr>"

definition env_smtp_down :: env where
  "env_smtp_down =
     env_plain\<lparr>throws := (\<lambda>c k. if c = SendEmail_call then Some JUndefined else None)\<rparr>"

definition req_signup_al :: request where
  "req_signup_al =
     \<lparr>body = [(''username'', ''al''), (''email'', ''a@x.com''), (''password'', ''p''), (''name'', ''Al'')],
      params_token = [], params_id = [], headers_host = ''example.org'',
      userId = None, role = None\<rparr>"

definition req_signup_bob :: request where
  "req_signup_bob =
     \<lparr>body = [(''username'', ''bob''), (''email'', ''b@x.com''), (''password'', ''q''), (''name'', ''Bob'')],
      params_token = [], params_id = [], headers_host = ''example.org'',
      userId = None, role = None\<rparr>"

definition env_token_error :: env where
  "env_token_error =
     env_plain\<lparr>throws := (\<lambda>c k. if c = Token_create_call then Some (JStr ''57014'') else None)\<rparr>"

definition req_verify_t0 :: request where
  "req_verify_t0 =
     \<lparr>body = [], params_token = ''t0'', params_id = [], headers_host = ''example.org'',
      userId = None, role = None\<rparr>"

definition env_early :: env where
  "env_early = env_plain\<lparr>now := 4999\<rparr>"

definition req_recover_t1 :: request where
  "req_recover_t1 =
     \<lparr>body = [(''password'', ''new'')], params_token = ''t1'', params_id = [],
      headers_host = ''example.org'', userId = None, role = None\<rparr>"

definition req_verify_recovery_t1 :: request where
  "req_verify_recovery_t1 =
     \<lparr>body = [], params_token = ''t1'', params_id = [],
      headers_host = ''example.org'', userId = None, role = None\<rparr>"

definition w_al :: world where
  "w_al = \<lparr>users = [al], tokens = [], saved = None, effects = []\<rparr>"

definition req_recover_al :: request where
  "req_recover_al =
     \<lparr>body = [(''email'', ''a@x.com'')], params_token = [], params_id = [],
      headers_host = ''example.org'', userId = None, role = None\<rparr>"

definition req_recover_unknown :: request where
  "req_recover_unknown =
     \<lparr>body = [(''email'', ''nobody@x.com'')], params_token = [], params_id = [],
      headers_host = ''example.org'', userId = None, role = None\<rparr>"

definition req_patch_other :: request where
  "req_patch_other =
     \<lparr>body = [(''username'', ''mallory'')], params_token = [], params_id = ''u0'',
      headers_host = ''example.org'', userId = Some ''u9'', role = Some Standard\<rparr>"

definition req_patch_self :: request where
  "req_patch_self =
     \<lparr>body = [(''username'', ''al2''), (''roleId'', ''2''), (''verified'', ''true'')],
      params_token = [], params_id = ''u0'',
      headers_host = ''example.org'', userId = Some ''u0'', role = Some Admin\<rparr>"

definition req_patch_empty :: request where
  "req_patch_empty =
     \<lparr>body = [(''username'', [])], params_token = [], params_id = ''u0'',
      headers_host = ''example.org'', userId = Some ''u0'', role = Some Standard\<rparr>"

definition req_delete_al :: request where
  "req_delete_al =
     \<lparr>body = [], params_token = [], params_id = ''u0'',
      headers_host = ''example.org'', userId = Some ''u9'', role = Some Standard\<rparr>"

definition req_delete_nobody :: request where
  "req_delete_nobody =
     \<lparr>body = [], params_token = [], params_id = ''u7'',
      headers_host = ''example.org'', userId = None, role = None\<rparr>"

section \<open>The retry loops\<close>

lemmas example_defs =
  env_plain_def env_same_token_def env_smtp_down_def w_empty_def w_two_tokens_def al_def
  req_signup_al_def req_signup_bob_def env_token_error_def req_verify_t0_def
  env_early_def req_recover_t1_def w_al_def req_recover_al_def req_recover_unknown_def
  req_verify_recovery_t1_def
  req_patch_other_def req_patch_self_def req_patch_empty_def req_delete_al_def
  req_delete_nobody_def

lemmas store_defs =
  query_BEGIN_def query_COMMIT_def query_ROLLBACK_def User_create_def Token_create_def
  Token_findTokens_def Token_deleteToken_def User_findUsers_by_user_id_def
  User_findUsers_by_email_def User_setAttributes_def User_deleteUser_def sendEmail_def
  emit_def unique_violation_def catch_500_def catch_block_def write_attributes_def Let_def

lemma signup_loop_step:
  "signup_retries env uid w i \<Longrightarrow> signup_token_loop env i uid w = signup_token_loop env (Suc i) uid w"
  by (subst signup_token_loop.simps) (simp add: signup_retries_def split: sum.splits)

lemma signup_loop_stop:
  "\<not> signup_retries env uid w i \<Longrightarrow>
     signup_token_loop env i uid w = Some (attempt env Verification uid w i)"
  by (subst signup_token_loop.simps) (simp add: signup_retries_def attempt_def split: sum.splits)

lemma signup_loop_skip:
  "(\<And>j. j < n \<Longrightarrow> signup_retries env uid w (k + j)) \<Longrightarrow>
     signup_token_loop env k uid w = signup_token_loop env (k + n) uid w"
proof (induction n arbitrary: k)
  case 0
  then show ?case by simp
next
  case (Suc n)
  have "signup_retries env uid w k" using Suc.prems [of 0] by simp
  then have "signup_token_loop env k uid w = signup_token_loop env (Suc k) uid w"
    by (rule signup_loop_step)
  also have "\<dots> = signup_token_loop env (Suc k + n) uid w"
  proof (rule Suc.IH)
    fix j assume "j < n"
    then show "signup_retries env uid w (Suc k + j)" using Suc.prems [of "Suc j"] by simp
  qed
  finally show ?case by simp
qed

lemma signup_loop_returns:
  assumes "signup_token_loop env i uid w = Some y"
  shows "\<exists>j\<ge>i. \<not> signup_retries env uid w j"
proof (rule signup_token_loop.raw_induct
    [where P = "\<lambda>env i uid w y. \<exists>j\<ge>i. \<not> signup_retries env uid w j", OF _ assms], goal_cases)
  case (1 f env i uid w y)
  show ?case
  proof (cases "signup_retries env uid w i")
    case False
    then show ?thesis by blast
  next
    case True
    with 1(2) have "f env (Suc i) uid w = Some y"
      by (simp add: signup_retries_def split: sum.splits)
    then obtain j where "j \<ge> Suc i" "\<not> signup_retries env uid w j" using 1(1) by blast
    then show ?thesis by (meson Suc_leD)
  qed
qed

lemma signup_loop_first:
  assumes "\<And>i. i < n \<Longrightarrow> signup_retries env uid w i" and "\<not> signup_retries env uid w n"
  shows "signup_token_loop env 0 uid w = Some (attempt env Verification uid w n)"
proof -
  have "signup_token_loop env 0 uid w = signup_token_loop env (0 + n) uid w"
    by (rule signup_loop_skip) (simp add: assms(1))
  then show ?thesis using signup_loop_stop [OF assms(2)] by simp
qed

lemma signup_loop_forever:
  assumes "\<And>i. signup_retries env uid w i"
  shows "signup_token_loop env k uid w = None"
proof (cases "signup_token_loop env k uid w")
  case None
  then show ?thesis .
next
  case (Some y)
  then show ?thesis using signup_loop_returns assms by blast
qed

lemma reset_loop_step:
  "reset_retries env uid w i \<Longrightarrow> reset_token_loop env i uid w = reset_token_loop env (Suc i) uid w"
  by (subst reset_token_loop.simps) (simp add: reset_retries_def split: sum.splits)

lemma reset_loop_stop:
  "\<not> reset_retries env uid w i \<Longrightarrow>
     reset_token_loop env i uid w = Some (attempt env Password uid w i)"
  by (subst reset_token_loop.simps) (simp add: reset_retries_def attempt_def split: sum.splits)

lemma reset_loop_skip:
  "(\<And>j. j < n \<Longrightarrow> reset_retries env uid w (k + j)) \<Longrightarrow>
     reset_token_loop env k uid w = reset_token_loop env (k + n) uid w"
proof (induction n arbitrary: k)
  case 0
  then show ?case by simp
next
  case (Suc n)
  have "reset_retries env uid w k" using Suc.prems [of 0] by simp
  then have "reset_token_loop env k uid w = reset_token_loop env (Suc k) uid w"
    by (rule reset_loop_step)
  also have "\<dots> = reset_token_loop env (Suc k + n) uid w"
  proof (rule Suc.IH)
    fix j assume "j < n"
    then show "reset_retries env uid w (Suc k + j)" using Suc.prems [of "Suc j"] by simp
  qed
  finally show ?case by simp
qed

lemma reset_loop_returns:
  assumes "reset_token_loop env i uid w = Some y"
  shows "\<exists>j\<ge>i. \<not> reset_retries env uid w j"
proof (rule reset_token_loop.raw_induct
    [where P = "\<lambda>env i uid w y. \<exists>j\<ge>i. \<not> reset_retries env uid w j", OF _ assms], goal_cases)
  case (1 f env i uid w y)
  show ?case
  proof (cases "reset_retries env uid w i")
    case False
    then show ?thesis by blast
  next
    case True
    with 1(2) have "f env (Suc i) uid w = Some y"
      by (simp add: reset_retries_def split: sum.splits)
    then obtain j where "j \<ge> Suc i" "\<not> reset_retries env uid w j" using 1(1) by blast
    then show ?thesis by (meson Suc_leD)
  qed
qed

lemma reset_loop_first:
  assumes "\<And>i. i < n \<Longrightarrow> reset_retries env uid w i" and "\<not> reset_retries env uid w n"
  shows "reset_token_loop env 0 uid w = Some (attempt env Password uid w n)"
proof -
  have "reset_token_loop env 0 uid w = reset_token_loop env (0 + n) uid w"
    by (rule reset_loop_skip) (simp add: assms(1))
  then show ?thesis using reset_loop_stop [OF assms(2)] by simp
qed

lemma reset_loop_forever:
  assumes "\<And>i. reset_retries env uid w i"
  shows "reset_token_loop env k uid w = None"
proof (cases "reset_token_loop env k uid w")
  case None
  then show ?thesis .
next
  case (Some y)
  then show ?thesis using reset_loop_returns assms by blast
qed

lemma signup_loop_none_iff:
  "signup_token_loop env 0 uid w = None \<longleftrightarrow> (\<forall>i. signup_retries env uid w i)"
proof
  assume none: "signup_token_loop env 0 uid w = None"
  show "\<forall>i. signup_retries env uid w i"
  proof (rule ccontr)
    assume "\<not> (\<forall>i. signup_retries env uid w i)"
    then have "\<exists>n. \<not> signup_retries env uid w n" by simp
    then obtain n where "\<not> signup_retries env uid w n" "\<forall>i<n. signup_retries env uid w i"
      using exists_least_iff [of "\<lambda>n. \<not> signup_retries env uid w n"] by auto
    then have "\<exists>y. signup_token_loop env 0 uid w = Some y"
      using signup_loop_first [of n env uid w] by simp
    with none show False by simp
  qed
next
  assume "\<forall>i. signup_retries env uid w i"
  then show "signup_token_loop env 0 uid w = None"
    by (intro signup_loop_forever) simp
qed

lemma reset_loop_none_iff:
  "reset_token_loop env 0 uid w = None \<longleftrightarrow> (\<forall>i. reset_retries env uid w i)"
proof
  assume none: "reset_token_loop env 0 uid w = None"
  show "\<forall>i. reset_retries env uid w i"
  proof (rule ccontr)
    assume "\<not> (\<forall>i. reset_retries env uid w i)"
    then have "\<exists>n. \<not> reset_retries env uid w n" by simp
    then obtain n where "\<not> reset_retries env uid w n" "\<forall>i<n. reset_retries env uid w i"
      using exists_least_iff [of "\<lambda>n. \<not> reset_retries env uid w n"] by auto
    then have "\<exists>y. reset_token_loop env 0 uid w = Some y"
      using reset_loop_first [of n env uid w] by simp
    with none show False by simp
  qed
next
  assume "\<forall>i. reset_retries env uid w i"
  then show "reset_token_loop env 0 uid w = None"
    by (intro reset_loop_forever) simp
qed

text \<open>
  C3 (as amended). The retry loops have no cap. Each loop returns exactly when some
  iteration is not retried: it never returns iff every iteration is retried, and when
  iteration \<open>n\<close> is the first that is not retried (after \<open>n\<close> retried collisions) the loop
  ends there, with the error of that iteration or with its token; a successful iteration
  has added exactly one token row, for the generated token, and nothing else.
\<close>

theorem token_loops_have_no_cap:
  "(signup_token_loop env 0 uid w = None \<longleftrightarrow> (\<forall>i. signup_retries env uid w i))
   \<and> (reset_token_loop env 0 uid w = None \<longleftrightarrow> (\<forall>i. reset_retries env uid w i))
   \<and> ((\<forall>i<n. signup_retries env uid w i) \<and> \<not> signup_retries env uid w n
        \<longrightarrow> signup_token_loop env 0 uid w = Some (attempt env Verification uid w n))
   \<and> ((\<forall>i<n. reset_retries env uid w i) \<and> \<not> reset_retries env uid w n
        \<longrightarrow> reset_token_loop env 0 uid w = Some (attempt env Password uid w n))
   \<and> (attempt env ty uid w n = Inr (tok, w')
        \<longrightarrow> tok = generateShortToken env n \<and> users w' = users w \<and>
            tokens w' = tokens w @
              [\<lparr>token = tok, token_user_id = uid, token_type = ty, created_at = now env\<rparr>])"
proof (intro conjI impI)
  show "signup_token_loop env 0 uid w = None \<longleftrightarrow> (\<forall>i. signup_retries env uid w i)"
    by (rule signup_loop_none_iff)
next
  show "reset_token_loop env 0 uid w = None \<longleftrightarrow> (\<forall>i. reset_retries env uid w i)"
    by (rule reset_loop_none_iff)
next
  assume "(\<forall>i<n. signup_retries env uid w i) \<and> \<not> signup_retries env uid w n"
  then show "signup_token_loop env 0 uid w = Some (attempt env Verification uid w n)"
    by (intro signup_loop_first) simp_all
next
  assume "(\<forall>i<n. reset_retries env uid w i) \<and> \<not> reset_retries env uid w n"
  then show "reset_token_loop env 0 uid w = Some (attempt env Password uid w n)"
    by (intro reset_loop_first) simp_all
next
  assume a: "attempt env ty uid w n = Inr (tok, w')"
  then show "tok = generateShortToken env n"
    by (auto simp: attempt_def split: sum.splits)
  from a show "users w' = users w"
    by (auto simp: attempt_def Token_create_def split: sum.splits option.splits if_splits)
  from a show "tokens w' = tokens w @
              [\<lparr>token = tok, token_user_id = uid, token_type = ty, created_at = now env\<rparr>]"
    by (auto simp: attempt_def Token_create_def split: sum.splits option.splits if_splits)
qed

theorem token_loops_have_no_cap_witness:
  "signup_retries env_plain ''u0'' w_two_tokens 0
   \<and> signup_retries env_plain ''u0'' w_two_tokens 1
   \<and> \<not> signup_retries env_plain ''u0'' w_two_tokens 2
   \<and> signup_token_loop env_plain 0 ''u0'' w_two_tokens =
       Some (Inr (''t2'', w_two_tokens\<lparr>tokens := tokens w_two_tokens @
         [\<lparr>token = ''t2'', token_user_id = ''u0'', token_type = Verification, created_at = 5000\<rparr>]\<rparr>))
   \<and> \<not> reset_retries env_plain ''u0'' w_two_tokens 0
   \<and> reset_token_loop env_plain 0 ''u0'' w_two_tokens \<noteq> None"
proof -
  have r: "\<forall>i<2. signup_retries env_plain ''u0'' w_two_tokens i"
    by (simp add: numeral_2_eq_2 All_less_Suc signup_retries_def example_defs store_defs)
  have s: "\<not> signup_retries env_plain ''u0'' w_two_tokens 2"
    by (simp add: signup_retries_def example_defs store_defs)
  have t: "\<not> reset_retries env_plain ''u0'' w_two_tokens 0"
    by (simp add: reset_retries_def example_defs store_defs)
  have a: "attempt env_plain Verification ''u0'' w_two_tokens 2 =
      Inr (''t2'', w_two_tokens\<lparr>tokens := tokens w_two_tokens @
         [\<lparr>token = ''t2'', token_user_id = ''u0'', token_type = Verification, created_at = 5000\<rparr>]\<rparr>)"
    by (simp add: attempt_def example_defs store_defs)
  have r0: "signup_retries env_plain ''u0'' w_two_tokens 0"
    and r1: "signup_retries env_plain ''u0'' w_two_tokens 1"
    using r by simp_all
  show ?thesis
    using r r0 r1 s t a
      token_loops_have_no_cap [of env_plain "''u0''" w_two_tokens 2]
      token_loops_have_no_cap [of env_plain "''u0''" w_two_tokens 0]
    by simp
qed

text \<open>
  C3 (as stated) fails: when the generator keeps returning a token that is already
  stored, every insert of the signup loop is a uniqueness violation, the loop never
  returns and neither does the handler.
\<close>

theorem signup_token_loop_runs_forever:
  "signup_token_loop env_same_token 0 ''u1''
      (w_two_tokens\<lparr>users := users w_two_tokens @
         [\<lparr>user_id = ''u1'', username = ''bob'', email = ''b@x.com'', name = ''Bob'',
           password = ''hash:q'', role_id = JNum 1, verified = False\<rparr>],
        saved := Some (users w_two_tokens, tokens w_two_tokens),
        effects := [Query ''BEGIN'']\<rparr>) = None
   \<and> signup env_same_token req_signup_bob w_two_tokens = None"
proof -
  let ?w = "w_two_tokens\<lparr>users := users w_two_tokens @
         [\<lparr>user_id = ''u1'', username = ''bob'', email = ''b@x.com'', name = ''Bob'',
           password = ''hash:q'', role_id = JNum 1, verified = False\<rparr>],
        saved := Some (users w_two_tokens, tokens w_two_tokens),
        effects := [Query ''BEGIN'']\<rparr>"
  have lp: "signup_token_loop env_same_token 0 ''u1'' ?w = None"
    by (rule signup_loop_forever) (simp add: signup_retries_def example_defs store_defs)
  have "signup_try env_same_token req_signup_bob w_two_tokens = None"
    using lp by (simp add: signup_try_def Let_def example_defs store_defs)
  then show ?thesis using lp by (simp add: signup_def)
qed

text \<open>
  C2: on the same store and the same generator, where the first generated token
  collides, the recovery loop throws at once (it compares the string code with the number
  23505), while the signup loop retries and returns the third token.
\<close>

theorem recovery_loop_does_not_retry:
  "reset_token_loop env_plain 0 ''u0'' w_two_tokens = Some (Inl (Token_error (JStr ''23505'')))
   \<and> recovery env_plain req_recover_al w_two_tokens =
       Some (w_two_tokens\<lparr>effects := [Log, Status_send 500 Generic_error]\<rparr>)
   \<and> signup_token_loop env_plain 0 ''u0'' w_two_tokens =
       Some (Inr (''t2'', w_two_tokens\<lparr>tokens := tokens w_two_tokens @
         [\<lparr>token = ''t2'', token_user_id = ''u0'', token_type = Verification, created_at = 5000\<rparr>]\<rparr>))"
proof -
  have t: "\<not> reset_retries env_plain ''u0'' w_two_tokens 0"
    by (simp add: reset_retries_def example_defs store_defs)
  have "reset_token_loop env_plain 0 ''u0'' w_two_tokens =
      Some (attempt env_plain Password ''u0'' w_two_tokens 0)"
    using t by (rule reset_loop_stop)
  then have 1: "reset_token_loop env_plain 0 ''u0'' w_two_tokens = Some (Inl (Token_error (JStr ''23505'')))"
    by (simp add: attempt_def example_defs store_defs)
  have "signup_token_loop env_plain 0 ''u0'' w_two_tokens =
      Some (attempt env_plain Verification ''u0'' w_two_tokens 2)"
    by (rule signup_loop_first)
       (auto simp: numeral_2_eq_2 less_Suc_eq signup_retries_def example_defs store_defs)
  then have 2: "signup_token_loop env_plain 0 ''u0'' w_two_tokens =
       Some (Inr (''t2'', w_two_tokens\<lparr>tokens := tokens w_two_tokens @
         [\<lparr>token = ''t2'', token_user_id = ''u0'', token_type = Verification, created_at = 5000\<rparr>]\<rparr>))"
    by (simp add: attempt_def example_defs store_defs)
  have 3: "recovery env_plain req_recover_al w_two_tokens =
       Some (w_two_tokens\<lparr>effects := [Log, Status_send 500 Generic_error]\<rparr>)"
    using 1
    by (simp add: recovery_def recovery_try_def sendPasswordResetEmail_def example_defs store_defs)
  show ?thesis using 1 2 3 by simp
qed

section \<open>Signup\<close>

lemma signup_loop_result:
  assumes "signup_token_loop env 0 uid w = Some r"
  shows "\<exists>n. r = attempt env Verification uid w n"
proof -
  from assms obtain j where "\<not> signup_retries env uid w j"
    using signup_loop_returns by blast
  then obtain n where "\<not> signup_retries env uid w n" "\<forall>i<n. signup_retries env uid w i"
    using exists_least_iff [of "\<lambda>n. \<not> signup_retries env uid w n"] by auto
  then have "signup_token_loop env 0 uid w = Some (attempt env Verification uid w n)"
    using signup_loop_first [of n env uid w] by simp
  with assms show ?thesis by auto
qed

lemma attempt_Inr:
  assumes "attempt env ty uid w n = Inr (tok, w')"
  shows "w' = w\<lparr>tokens := tokens w @
           [\<lparr>token = tok, token_user_id = uid, token_type = ty, created_at = now env\<rparr>]\<rparr>"
  using assms
  by (auto simp: attempt_def Token_create_def split: sum.splits option.splits if_splits)

lemma signup_loop_Inr:
  assumes "signup_token_loop env 0 uid w = Some (Inr (tok, w'))"
  shows "w' = w\<lparr>tokens := tokens w @
           [\<lparr>token = tok, token_user_id = uid, token_type = Verification, created_at = now env\<rparr>]\<rparr>"
  using signup_loop_result [OF assms] attempt_Inr by metis

lemma signup_try_cases:
  assumes "signup_try env req w = Some (flag, thrown, w1)"
  shows "(\<not> flag \<and> thrown = None \<and> w1 = emit (Status_send 400 (Message ''Body must include username, email, password, and name'')) w)
    \<or> (\<not> flag \<and> thrown \<noteq> None \<and> w1 = w)
    \<or> (flag \<and> thrown \<noteq> None \<and> saved w1 = Some (users w, tokens w) \<and>
         (\<exists>pre. effects w1 = effects w @ Query ''BEGIN'' # pre \<and>
            (pre = [] \<or> (\<exists>to link. pre = [Send_email ''Account Verification Request'' to link]))))
    \<or> (\<not> flag \<and> thrown = None \<and> throws env SendEmail_call 0 = None \<and>
         throws env Query_COMMIT 0 = None \<and>
         (\<exists>newUser newToken link.
            users w1 = users w @ [newUser] \<and> tokens w1 = tokens w @ [newToken] \<and>
            user_id newUser = new_user_id env \<and> \<not> verified newUser \<and>
            token_user_id newToken = user_id newUser \<and> token_type newToken = Verification \<and>
            effects w1 = effects w @
              [Query ''BEGIN'', Send_email ''Account Verification Request'' (email newUser) link,
               Query ''COMMIT'', Status_send 204 No_body]))"
  using assms
  unfolding signup_try_def emit_def
  by (auto simp: Let_def query_BEGIN_def query_COMMIT_def User_create_def sendEmail_def
        sendVerificationEmail_def emit_def
      split: option.splits sum.splits prod.splits if_splits
      dest!: signup_loop_Inr)


text \<open>The handler answers whenever the retry loop cannot go on forever.\<close>

lemma signup_returns:
  assumes "\<And>uid w1. \<exists>n. \<not> signup_retries env uid w1 n"
  shows "\<exists>w'. signup env req w = Some w'"
proof -
  have loop: "signup_token_loop env 0 uid w1 \<noteq> None" for uid w1
    using assms [of uid w1] signup_loop_none_iff [of env uid w1] by blast
  have "signup_try env req w \<noteq> None"
    unfolding signup_try_def
    by (auto simp: Let_def loop split: option.splits sum.splits prod.splits)
  then show ?thesis
    by (auto simp: signup_def Let_def split: option.splits prod.splits)
qed

text \<open>
  C1 (as amended). A signup that returns has either committed, which needs the email
  dispatch and the \<^verbatim>\<open>COMMIT\<close> not to throw and adds exactly one user row and one
  verification token row owned by that user, or it has left the user rows and the token
  rows as they were. When a step after \<^verbatim>\<open>BEGIN\<close> fails (the insert of the user row, the
  issuance of the token, the email dispatch, the \<^verbatim>\<open>COMMIT\<close>), the handler logs, answers
  500, and only then, in its \<^verbatim>\<open>finally\<close> block, rolls the transaction back and releases
  the client.
\<close>

theorem signup_all_or_nothing:
  assumes "signup env req w = Some w'"
  shows "(throws env SendEmail_call 0 = None \<and> throws env Query_COMMIT 0 = None \<and>
          (\<exists>newUser newToken link.
             users w' = users w @ [newUser] \<and> tokens w' = tokens w @ [newToken] \<and>
             user_id newUser = new_user_id env \<and> \<not> verified newUser \<and>
             token_user_id newToken = user_id newUser \<and> token_type newToken = Verification \<and>
             effects w' = effects w @
               [Query ''BEGIN'', Send_email ''Account Verification Request'' (email newUser) link,
                Query ''COMMIT'', Status_send 204 No_body, Release]))
    \<or> (users w' = users w \<and> tokens w' = tokens w \<and>
         (effects w' = effects w @ [Status_send 400 (Message ''Body must include username, email, password, and name''), Release]
          \<or> effects w' = effects w @ [Log, Status_send 500 Generic_error, Release]
          \<or> (\<exists>pre. effects w' = effects w @ Query ''BEGIN'' # pre @
                [Log, Status_send 500 Generic_error, Query ''ROLLBACK'', Release] \<and>
              (pre = [] \<or> (\<exists>to link. pre = [Send_email ''Account Verification Request'' to link])))))"
proof -
  from assms obtain flag thrown w1 where
    run: "signup_try env req w = Some (flag, thrown, w1)"
    and w': "w' = emit Release
      (let w2 = (case thrown of Some err \<Rightarrow> catch_500 w1 | None \<Rightarrow> w1)
       in if flag then query_ROLLBACK w2 else w2)"
    by (auto simp: signup_def Let_def split: option.splits prod.splits)
  from signup_try_cases [OF run] consider
      (invalid) "\<not> flag" "thrown = None"
        "w1 = emit (Status_send 400
           (Message ''Body must include username, email, password, and name'')) w"
    | (no_begin) "\<not> flag" "thrown \<noteq> None" "w1 = w"
    | (failed) pre where "flag" "thrown \<noteq> None" "saved w1 = Some (users w, tokens w)"
        "effects w1 = effects w @ Query ''BEGIN'' # pre"
        "pre = [] \<or> (\<exists>to link. pre = [Send_email ''Account Verification Request'' to link])"
    | (committed) newUser newToken link where "\<not> flag" "thrown = None"
        "throws env SendEmail_call 0 = None" "throws env Query_COMMIT 0 = None"
        "users w1 = users w @ [newUser]" "tokens w1 = tokens w @ [newToken]"
        "user_id newUser = new_user_id env" "\<not> verified newUser"
        "token_user_id newToken = user_id newUser" "token_type newToken = Verification"
        "effects w1 = effects w @
           [Query ''BEGIN'', Send_email ''Account Verification Request'' (email newUser) link,
            Query ''COMMIT'', Status_send 204 No_body]"
    by blast
  then show ?thesis
  proof cases
    case invalid
    then show ?thesis using w' by (simp add: emit_def)
  next
    case no_begin
    then show ?thesis using w' by (auto simp: emit_def catch_500_def)
  next
    case failed
    then show ?thesis using w'
      by (auto simp: emit_def catch_500_def query_ROLLBACK_def)
  next
    case committed
    then show ?thesis using w' by (auto simp: emit_def)
  qed
qed

theorem signup_all_or_nothing_witness:
  "signup env_token_error req_signup_al w_empty =
     Some \<lparr>users = [], tokens = [], saved = None,
           effects = [Query ''BEGIN'', Log, Status_send 500 Generic_error,
                      Query ''ROLLBACK'', Release]\<rparr>
   \<and> users \<lparr>users = [], tokens = [], saved = None,
           effects = [Query ''BEGIN'', Log, Status_send 500 Generic_error,
                      Query ''ROLLBACK'', Release]\<rparr> = users w_empty"
proof -
  have "\<not> signup_retries env_token_error ''u1''
      \<lparr>users = [\<lparr>user_id = ''u1'', username = ''al'', email = ''a@x.com'', name = ''Al'',
           password = ''hash:p'', role_id = JNum 1, verified = False\<rparr>],
       tokens = [], saved = Some ([], []), effects = [Query ''BEGIN'']\<rparr> 0"
    by (simp add: signup_retries_def example_defs store_defs)
  from signup_loop_stop [OF this]
  have "signup_try env_token_error req_signup_al w_empty =
     Some (True, Some (Token_error (JStr ''57014'')),
       \<lparr>users = [\<lparr>user_id = ''u1'', username = ''al'', email = ''a@x.com'', name = ''Al'',
           password = ''hash:p'', role_id = JNum 1, verified = False\<rparr>],
        tokens = [],
        saved = Some ([], []), effects = [Query ''BEGIN'']\<rparr>)"
    by (simp add: signup_try_def sendVerificationEmail_def attempt_def example_defs store_defs)
  then have h: "signup env_token_error req_signup_al w_empty =
     Some \<lparr>users = [], tokens = [], saved = None,
           effects = [Query ''BEGIN'', Log, Status_send 500 Generic_error,
                      Query ''ROLLBACK'', Release]\<rparr>"
    by (simp add: signup_def store_defs)
  show ?thesis using h signup_all_or_nothing [OF h] by (simp add: w_empty_def)
qed

text \<open>
  C1 (as stated) fails on the order of the two effects: when the email dispatch throws,
  the 500 response is sent in the \<^verbatim>\<open>catch\<close> block, before the \<^verbatim>\<open>ROLLBACK\<close> of the
  \<^verbatim>\<open>finally\<close> block.
\<close>

theorem signup_responds_before_rollback:
  "signup env_smtp_down req_signup_al w_empty =
     Some \<lparr>users = [], tokens = [], saved = None,
           effects = [Query ''BEGIN'', Log, Status_send 500 Generic_error,
                      Query ''ROLLBACK'', Release]\<rparr>
   \<and> \<not> happens_before (Query ''ROLLBACK'') (Status_send 500 Generic_error)
         [Query ''BEGIN'', Log, Status_send 500 Generic_error, Query ''ROLLBACK'', Release]
   \<and> happens_before (Status_send 500 Generic_error) (Query ''ROLLBACK'')
         [Query ''BEGIN'', Log, Status_send 500 Generic_error, Query ''ROLLBACK'', Release]"
proof -
  have "\<not> signup_retries env_smtp_down ''u1''
      \<lparr>users = [\<lparr>user_id = ''u1'', username = ''al'', email = ''a@x.com'', name = ''Al'',
           password = ''hash:p'', role_id = JNum 1, verified = False\<rparr>],
       tokens = [], saved = Some ([], []), effects = [Query ''BEGIN'']\<rparr> 0"
    by (simp add: signup_retries_def example_defs store_defs)
  from signup_loop_stop [OF this]
  have "signup_try env_smtp_down req_signup_al w_empty =
     Some (True, Some (Thrown JUndefined),
       \<lparr>users = [\<lparr>user_id = ''u1'', username = ''al'', email = ''a@x.com'', name = ''Al'',
           password = ''hash:p'', role_id = JNum 1, verified = False\<rparr>],
        tokens = [\<lparr>token = ''t0'', token_user_id = ''u1'', token_type = Verification,
           created_at = 5000\<rparr>],
        saved = Some ([], []), effects = [Query ''BEGIN'']\<rparr>)"
    by (simp add: signup_try_def sendVerificationEmail_def attempt_def example_defs store_defs)
  then show ?thesis
    by (simp add: signup_def store_defs happens_before_def)
qed

section \<open>Verification redemption\<close>

lemma filter_key:
  "distinct (map f xs) \<Longrightarrow> x \<in> set xs \<Longrightarrow> filter (\<lambda>r. f r = f x) xs = [x]"
proof (induction xs)
  case Nil
  then show ?case by simp
next
  case (Cons a xs)
  show ?case
  proof (cases "a = x")
    case True
    with Cons.prems have "\<forall>r\<in>set xs. f r \<noteq> f x" by (auto simp: image_iff)
    then have "filter (\<lambda>r. f r = f x) xs = []" by (simp add: filter_empty_conv)
    with True show ?thesis by simp
  next
    case False
    with Cons.prems have "x \<in> set xs" "f a \<noteq> f x" by (auto simp: image_iff)
    with Cons show ?thesis by simp
  qed
qed

lemma filter_key_and:
  "distinct (map f xs) \<Longrightarrow> x \<in> set xs \<Longrightarrow> P x \<Longrightarrow> filter (\<lambda>r. f r = f x \<and> P r) xs = [x]"
proof -
  assume a: "distinct (map f xs)" "x \<in> set xs" "P x"
  have "filter (\<lambda>r. f r = f x \<and> P r) xs = filter P (filter (\<lambda>r. f r = f x) xs)"
    by (simp add: conj_commute)
  then show ?thesis using filter_key [OF a(1,2)] a(3) by simp
qed

lemma findTokens_present:
  assumes "throws env Token_findTokens_call 0 = None" "distinct (map token (tokens w))"
    "t \<in> set (tokens w)" "token t = tok" "token_type t = ty"
  shows "Token_findTokens env tok ty w = Inr [t]"
proof -
  have "filter (\<lambda>r. token r = token t \<and> token_type r = ty) (tokens w) = [t]"
    using assms by (intro filter_key_and) simp_all
  then show ?thesis using assms by (simp add: Token_findTokens_def)
qed

lemma findUsers_present:
  assumes "throws env User_findUsers_call 0 = None" "distinct (map user_id (users w))"
    "u \<in> set (users w)" "user_id u = uid"
  shows "User_findUsers_by_user_id env uid w = Inr [u]"
proof -
  have "filter (\<lambda>r. user_id r = user_id u) (users w) = [u]"
    using assms by (intro filter_key) simp_all
  then show ?thesis using assms by (simp add: User_findUsers_by_user_id_def)
qed



section \<open>Recovery redemption\<close>

text \<open>
  C5. Let \<open>t\<close> be a stored Password token whose value is the one in the path, in a store
  with unique token strings, and let the token lookup not throw. The verify step, which
  reads nothing of the request but that value, redirects to the password-entry page iff
  \<open>now - createdAt < TTL\<close> and answers 400 with the generic message otherwise, so also at
  an age of exactly the time to live. The process step, for a body that carries a
  password, answers the same 400 and changes nothing when \<open>now - createdAt < TTL\<close> fails;
  when it holds, the owner row exists and no store call throws, it sets the password,
  deletes the token and returns a session credential.
\<close>

theorem password_token_expiry:
  assumes "throws env Token_findTokens_call 0 = None"
    and "distinct (map token (tokens w))"
    and "t \<in> set (tokens w)" "token t = params_token req" "token_type t = Password"
  shows "verifyRecovery env req w =
           emit (if now env - created_at t < ttl env
                 then Redirect (''/recover/'' @ params_token req)
                 else Status_send 400 Generic_error) w
       \<and> (map_of (body req) ''password'' = Some pw \<and> \<not> now env - created_at t < ttl env
            \<longrightarrow> processRecovery env req w = emit (Status_send 400 Generic_error) w)
       \<and> (map_of (body req) ''password'' = Some pw \<and> now env - created_at t < ttl env \<and>
           throws env User_findUsers_call 0 = None \<and>
           throws env User_setAttributes_call 0 = None \<and>
           throws env Token_deleteToken_call 0 = None \<and>
           distinct (map user_id (users w)) \<and> u \<in> set (users w) \<and> user_id u = token_user_id t
            \<longrightarrow> effects (processRecovery env req w) =
                  effects w @
                    [SetAttributes (user_id u) [(''password'', JStr (bcrypt_hash env pw))],
                     Set_cookie (generateUserAuthToken env u req),
                     Status_send 200 (Token_body (generateUserAuthToken env u req))]
                \<and> users (processRecovery env req w) =
                  map (\<lambda>r. if user_id r = user_id u
                            then r\<lparr>password := bcrypt_hash env pw\<rparr> else r) (users w)
                \<and> tokens (processRecovery env req w) =
                  filter (\<lambda>r. token r \<noteq> params_token req) (tokens w))"
proof -
  have ft: "Token_findTokens env (params_token req) Password w = Inr [t]"
    using assms by (intro findTokens_present) simp_all
  have v: "verifyRecovery env req w =
           emit (if now env - created_at t < ttl env
                 then Redirect (''/recover/'' @ params_token req)
                 else Status_send 400 Generic_error) w"
    using ft
    by (simp add: verifyRecovery_def verifyRecovery_try_def catch_block_def
          isPasswordTokenExpired_def)
  have expired: "processRecovery env req w = emit (Status_send 400 Generic_error) w"
    if "map_of (body req) ''password'' = Some pw" "\<not> now env - created_at t < ttl env"
    using that ft
    by (simp add: processRecovery_def processRecovery_try_def catch_block_def
          isPasswordTokenExpired_def)
  have fresh: "processRecovery env req w =
       w\<lparr>users := map (\<lambda>r. if user_id r = user_id u
                                  then r\<lparr>password := bcrypt_hash env pw\<rparr> else r) (users w),
              tokens := filter (\<lambda>r. token r \<noteq> params_token req) (tokens w),
              effects := effects w @
                [SetAttributes (user_id u) [(''password'', JStr (bcrypt_hash env pw))],
                 Set_cookie (generateUserAuthToken env u req),
                 Status_send 200 (Token_body (generateUserAuthToken env u req))]\<rparr>"
    if "map_of (body req) ''password'' = Some pw" "now env - created_at t < ttl env"
      "throws env User_findUsers_call 0 = None" "throws env User_setAttributes_call 0 = None"
      "throws env Token_deleteToken_call 0 = None"
      "distinct (map user_id (users w))" "u \<in> set (users w)" "user_id u = token_user_id t"
  proof -
    have fu: "User_findUsers_by_user_id env (token_user_id t) w = Inr [u]"
      using that by (intro findUsers_present) simp_all
    show ?thesis
      using ft fu that(1,2,4,5,8)
      by (simp add: processRecovery_def processRecovery_try_def catch_block_def
            isPasswordTokenExpired_def User_setAttributes_def write_attributes_def
            Token_deleteToken_def emit_def Let_def)
  qed
  show ?thesis
  proof (intro conjI impI)
    show "verifyRecovery env req w =
           emit (if now env - created_at t < ttl env
                 then Redirect (''/recover/'' @ params_token req)
                 else Status_send 400 Generic_error) w"
      by (rule v)
  next
    assume "map_of (body req) ''password'' = Some pw \<and> \<not> now env - created_at t < ttl env"
    then show "processRecovery env req w = emit (Status_send 400 Generic_error) w"
      using expired by blast
  next
    assume a: "map_of (body req) ''password'' = Some pw \<and> now env - created_at t < ttl env \<and>
           throws env User_findUsers_call 0 = None \<and>
           throws env User_setAttributes_call 0 = None \<and>
           throws env Token_deleteToken_call 0 = None \<and>
           distinct (map user_id (users w)) \<and> u \<in> set (users w) \<and> user_id u = token_user_id t"
    then have eq: "processRecovery env req w =
       w\<lparr>users := map (\<lambda>r. if user_id r = user_id u
                                  then r\<lparr>password := bcrypt_hash env pw\<rparr> else r) (users w),
              tokens := filter (\<lambda>r. token r \<noteq> params_token req) (tokens w),
              effects := effects w @
                [SetAttributes (user_id u) [(''password'', JStr (bcrypt_hash env pw))],
                 Set_cookie (generateUserAuthToken env u req),
                 Status_send 200 (Token_body (generateUserAuthToken env u req))]\<rparr>"
      using fresh by blast
    show "effects (processRecovery env req w) =
                  effects w @
                    [SetAttributes (user_id u) [(''password'', JStr (bcrypt_hash env pw))],
                     Set_cookie (generateUserAuthToken env u req),
                     Status_send 200 (Token_body (generateUserAuthToken env u req))]"
      by (simp add: eq)
    show "users (processRecovery env req w) =
                  map (\<lambda>r. if user_id r = user_id u
                            then r\<lparr>password := bcrypt_hash env pw\<rparr> else r) (users w)"
      by (simp add: eq)
    show "tokens (processRecovery env req w) =
                  filter (\<lambda>r. token r \<noteq> params_token req) (tokens w)"
      by (simp add: eq)
  qed
qed

theorem password_token_expiry_witness:
  "now env_plain - 1400 = ttl env_plain
   \<and> verifyRecovery env_plain req_verify_recovery_t1 w_two_tokens =
       w_two_tokens\<lparr>effects := [Status_send 400 Generic_error]\<rparr>
   \<and> processRecovery env_plain req_recover_t1 w_two_tokens =
       w_two_tokens\<lparr>effects := [Status_send 400 Generic_error]\<rparr>
   \<and> now env_early - 1400 < ttl env_early
   \<and> verifyRecovery env_early req_verify_recovery_t1 w_two_tokens =
       w_two_tokens\<lparr>effects := [Redirect ''/recover/t1'']\<rparr>
   \<and> effects (processRecovery env_early req_recover_t1 w_two_tokens) =
       [SetAttributes ''u0'' [(''password'', JStr ''hash:new'')],
        Set_cookie ''session:al'', Status_send 200 (Token_body ''session:al'')]
   \<and> users (processRecovery env_early req_recover_t1 w_two_tokens) =
       [al\<lparr>password := ''hash:new''\<rparr>]
   \<and> tokens (processRecovery env_early req_recover_t1 w_two_tokens) =
       [\<lparr>token = ''t0'', token_user_id = ''u0'', token_type = Verification, created_at = 0\<rparr>]"
  using
    password_token_expiry [of env_plain w_two_tokens
      "\<lparr>token = ''t1'', token_user_id = ''u0'', token_type = Password, created_at = 1400\<rparr>"
      req_verify_recovery_t1 "''new''" al]
    password_token_expiry [of env_plain w_two_tokens
      "\<lparr>token = ''t1'', token_user_id = ''u0'', token_type = Password, created_at = 1400\<rparr>"
      req_recover_t1 "''new''" al]
    password_token_expiry [of env_early w_two_tokens
      "\<lparr>token = ''t1'', token_user_id = ''u0'', token_type = Password, created_at = 1400\<rparr>"
      req_verify_recovery_t1 "''new''" al]
    password_token_expiry [of env_early w_two_tokens
      "\<lparr>token = ''t1'', token_user_id = ''u0'', token_type = Password, created_at = 1400\<rparr>"
      req_recover_t1 "''new''" al]
  by (simp add: example_defs emit_def)

text \<open>
  C7. The verify step of the recovery writes nothing: whatever the request and the
  outcome, users, tokens and the open transaction are as before. For a stored Password
  token that has not expired its only effect is the redirect to the password-entry page
  \<^verbatim>\<open>/recover/<token>\<close>.
\<close>

theorem verifyRecovery_read_only:
  "users (verifyRecovery env req w) = users w
   \<and> tokens (verifyRecovery env req w) = tokens w
   \<and> saved (verifyRecovery env req w) = saved w
   \<and> (throws env Token_findTokens_call 0 = None \<and> distinct (map token (tokens w)) \<and>
       t \<in> set (tokens w) \<and> token t = params_token req \<and> token_type t = Password \<and>
       \<not> isPasswordTokenExpired env t
       \<longrightarrow> verifyRecovery env req w = emit (Redirect (''/recover/'' @ params_token req)) w)"
proof -
  have frame: "users (verifyRecovery env req w) = users w
      \<and> tokens (verifyRecovery env req w) = tokens w
      \<and> saved (verifyRecovery env req w) = saved w"
    by (simp add: verifyRecovery_def verifyRecovery_try_def catch_block_def catch_500_def
          emit_def split: sum.splits list.splits)
  have "verifyRecovery env req w = emit (Redirect (''/recover/'' @ params_token req)) w"
    if "throws env Token_findTokens_call 0 = None" "distinct (map token (tokens w))"
      "t \<in> set (tokens w)" "token t = params_token req" "token_type t = Password"
      "\<not> isPasswordTokenExpired env t"
  proof -
    have "Token_findTokens env (params_token req) Password w = Inr [t]"
      using that by (intro findTokens_present) simp_all
    then show ?thesis using that(6)
      by (simp add: verifyRecovery_def verifyRecovery_try_def catch_block_def)
  qed
  with frame show ?thesis by blast
qed

theorem verifyRecovery_read_only_witness:
  "\<not> isPasswordTokenExpired env_early
       \<lparr>token = ''t1'', token_user_id = ''u0'', token_type = Password, created_at = 1400\<rparr>
   \<and> verifyRecovery env_early req_recover_t1 w_two_tokens =
       w_two_tokens\<lparr>effects := [Redirect ''/recover/t1'']\<rparr>"
  using verifyRecovery_read_only [of env_early req_recover_t1 w_two_tokens
      "\<lparr>token = ''t1'', token_user_id = ''u0'', token_type = Password, created_at = 1400\<rparr>"]
  by (simp add: example_defs emit_def isPasswordTokenExpired_def)

section \<open>Recovery request\<close>

lemma reset_loop_result:
  assumes "reset_token_loop env 0 uid w = Some r"
  shows "\<exists>n. r = attempt env Password uid w n"
proof -
  from assms obtain j where "\<not> reset_retries env uid w j"
    using reset_loop_returns by blast
  then obtain n where "\<not> reset_retries env uid w n" "\<forall>i<n. reset_retries env uid w i"
    using exists_least_iff [of "\<lambda>n. \<not> reset_retries env uid w n"] by auto
  then have "reset_token_loop env 0 uid w = Some (attempt env Password uid w n)"
    using reset_loop_first [of n env uid w] by simp
  with assms show ?thesis by auto
qed

lemma reset_loop_Inr:
  assumes "reset_token_loop env 0 uid w = Some (Inr (tok, w'))"
  shows "w' = w\<lparr>tokens := tokens w @
           [\<lparr>token = tok, token_user_id = uid, token_type = Password, created_at = now env\<rparr>]\<rparr>"
  using reset_loop_result [OF assms] attempt_Inr by metis

lemma findUsers_email_present:
  assumes "throws env User_findUsers_call 0 = None" "distinct (map email (users w))"
    "u \<in> set (users w)" "email u = mail"
  shows "User_findUsers_by_email env mail w = Inr [u]"
proof -
  have "filter (\<lambda>r. email r = email u) (users w) = [u]"
    using assms by (intro filter_key) simp_all
  then show ?thesis using assms by (simp add: User_findUsers_by_email_def)
qed

text \<open>
  C6 (as amended). In a store with unique emails, a recovery request whose email matches
  no user is answered by the redirect to \<^verbatim>\<open>/recover/sent\<close>. A request whose email matches a
  user, and for which the issuance of the token returns a token, gets the same response
  when the email dispatch does not throw; when it throws, the response is the 500 of the
  \<^verbatim>\<open>catch\<close> block instead.
\<close>

theorem recovery_same_redirect:
  assumes "throws env User_findUsers_call 0 = None"
    and "map_of (body req1) ''email'' = Some e1" "\<forall>r\<in>set (users w). email r \<noteq> e1"
    and "map_of (body req2) ''email'' = Some e2" "u \<in> set (users w)" "email u = e2"
      "distinct (map email (users w))"
    and "reset_token_loop env 0 (user_id u) w = Some (Inr (tok, w1))"
  shows "recovery env req1 w = Some (emit (Redirect ''/recover/sent'') w)
       \<and> (throws env SendEmail_call 0 = None \<longrightarrow>
            recovery env req2 w =
              Some (emit (Redirect ''/recover/sent'')
                (emit (Send_email ''Password Recovery Request'' e2
                   (''http://'' @ headers_host req2 @ ''/api/auth/recovery/verify/'' @ tok)) w1))
            \<and> map_option responses (recovery env req2 w) = map_option responses (recovery env req1 w))
       \<and> (throws env SendEmail_call 0 \<noteq> None \<longrightarrow>
            map_option responses (recovery env req2 w) =
              Some (responses w @ [Status_send 500 Generic_error]))"
proof -
  have none: "User_findUsers_by_email env e1 w = Inr []"
    using assms(1,3) by (simp add: User_findUsers_by_email_def filter_empty_conv)
  have r1: "recovery env req1 w = Some (emit (Redirect ''/recover/sent'') w)"
    using assms(2) none by (simp add: recovery_def recovery_try_def catch_block_def)
  have found: "User_findUsers_by_email env e2 w = Inr [u]"
    using assms by (intro findUsers_email_present) simp_all
  have w1: "effects w1 = effects w"
    using reset_loop_Inr [OF assms(8)] by simp
  have ok: "recovery env req2 w =
              Some (emit (Redirect ''/recover/sent'')
                (emit (Send_email ''Password Recovery Request'' e2
                   (''http://'' @ headers_host req2 @ ''/api/auth/recovery/verify/'' @ tok)) w1))"
    if "throws env SendEmail_call 0 = None"
    using that assms(4,6,8) found
    by (simp add: recovery_def recovery_try_def sendPasswordResetEmail_def sendEmail_def
          catch_block_def Let_def)
  have bad: "recovery env req2 w = Some (catch_500 w1)"
    if "throws env SendEmail_call 0 \<noteq> None"
    using that assms(4,6,8) found
    by (auto simp: recovery_def recovery_try_def sendPasswordResetEmail_def sendEmail_def
          catch_block_def Let_def)
  show ?thesis
    using r1 ok bad w1 by (auto simp: responses_def emit_def catch_500_def)
qed

theorem recovery_same_redirect_witness:
  "recovery env_plain req_recover_unknown w_al = Some (w_al\<lparr>effects := [Redirect ''/recover/sent'']\<rparr>)
   \<and> map_option responses (recovery env_plain req_recover_al w_al) = Some [Redirect ''/recover/sent'']
   \<and> map_option responses (recovery env_smtp_down req_recover_al w_al) =
        Some [Status_send 500 Generic_error]"
proof -
  let ?w1 = "w_al\<lparr>tokens := [\<lparr>token = ''t0'', token_user_id = ''u0'', token_type = Password,
                                 created_at = 5000\<rparr>]\<rparr>"
  have n: "\<not> reset_retries env_plain ''u0'' w_al 0"
    by (simp add: reset_retries_def example_defs store_defs)
  have l: "reset_token_loop env_plain 0 (user_id al) w_al = Some (Inr (''t0'', ?w1))"
    using reset_loop_stop [OF n] by (simp add: attempt_def example_defs store_defs)
  have n': "\<not> reset_retries env_smtp_down ''u0'' w_al 0"
    by (simp add: reset_retries_def example_defs store_defs)
  have l': "reset_token_loop env_smtp_down 0 (user_id al) w_al = Some (Inr (''t0'', ?w1))"
    using reset_loop_stop [OF n'] by (simp add: attempt_def example_defs store_defs)
  have a: "throws env_plain User_findUsers_call 0 = None"
    "throws env_smtp_down User_findUsers_call 0 = None"
    "map_of (body req_recover_unknown) ''email'' = Some ''nobody@x.com''"
    "\<forall>r\<in>set (users w_al). email r \<noteq> ''nobody@x.com''"
    "map_of (body req_recover_al) ''email'' = Some ''a@x.com''"
    "al \<in> set (users w_al)" "email al = ''a@x.com''" "distinct (map email (users w_al))"
    by (simp_all add: example_defs)
  show ?thesis
    using recovery_same_redirect [OF a(1) a(3) a(4) a(5) a(6) a(7) a(8) l]
      recovery_same_redirect [OF a(2) a(3) a(4) a(5) a(6) a(7) a(8) l']
    by (simp add: example_defs responses_def emit_def)
qed

text \<open>
  C6 (as stated) fails: with a mail service that throws, the request for an unknown
  email is redirected and the request for a known email is answered 500.
\<close>

theorem recovery_reveals_known_email:
  "recovery env_smtp_down req_recover_unknown w_al =
     Some (w_al\<lparr>effects := [Redirect ''/recover/sent'']\<rparr>)
   \<and> recovery env_smtp_down req_recover_al w_al =
     Some (w_al\<lparr>tokens := [\<lparr>token = ''t0'', token_user_id = ''u0'', token_type = Password,
                               created_at = 5000\<rparr>],
                effects := [Log, Status_send 500 Generic_error]\<rparr>)"
proof -
  have n: "\<not> reset_retries env_smtp_down ''u0'' w_al 0"
    by (simp add: reset_retries_def example_defs store_defs)
  have l: "reset_token_loop env_smtp_down 0 ''u0'' w_al =
      Some (Inr (''t0'', w_al\<lparr>tokens := [\<lparr>token = ''t0'', token_user_id = ''u0'',
         token_type = Password, created_at = 5000\<rparr>]\<rparr>))"
    using reset_loop_stop [OF n] by (simp add: attempt_def example_defs store_defs)
  have 1: "recovery env_smtp_down req_recover_unknown w_al =
     Some (w_al\<lparr>effects := [Redirect ''/recover/sent'']\<rparr>)"
    by (simp add: recovery_def recovery_try_def example_defs store_defs)
  have 2: "recovery env_smtp_down req_recover_al w_al =
     Some (w_al\<lparr>tokens := [\<lparr>token = ''t0'', token_user_id = ''u0'', token_type = Password,
                               created_at = 5000\<rparr>],
                effects := [Log, Status_send 500 Generic_error]\<rparr>)"
    using l
    by (simp add: recovery_def recovery_try_def sendPasswordResetEmail_def example_defs store_defs)
  show ?thesis using 1 2 by simp
qed

section \<open>Update and delete\<close>

lemmas update_defs = updateUser_def updateUser_try_def newAttributes_of_def
  newAdminAttributes_of_def collect_attribute_def hash_password_def js_strings_def truthy_def

lemma collect_attribute_eq:
  "collect_attribute (k, v) (n, a) =
     (if k \<in> profile_keys then AList.update k v n else n,
      if k = ''roleId'' then AList.update ''role_id'' v a else a)"
  by (simp add: collect_attribute_def profile_keys_def)

lemma collect_attribute_keys:
  "fst ` set (fst (collect_attribute kv acc)) \<subseteq> fst ` set (fst acc) \<union> profile_keys"
  "fst ` set (snd (collect_attribute kv acc)) \<subseteq> fst ` set (snd acc) \<union> {''role_id''}"
proof -
  obtain k v where kv: "kv = (k, v)" by (cases kv)
  obtain n a where acc: "acc = (n, a)" by (cases acc)
  show "fst ` set (fst (collect_attribute kv acc)) \<subseteq> fst ` set (fst acc) \<union> profile_keys"
    unfolding kv acc collect_attribute_eq
    by (cases "k \<in> profile_keys") (auto simp: AList.dom_update)
  show "fst ` set (snd (collect_attribute kv acc)) \<subseteq> fst ` set (snd acc) \<union> {''role_id''}"
    unfolding kv acc collect_attribute_eq
    by (cases "k = ''roleId''") (simp_all add: AList.dom_update subset_insertI)
qed

lemma collect_keys:
  "fst ` set (fst (fold collect_attribute b acc)) \<subseteq> fst ` set (fst acc) \<union> profile_keys
   \<and> fst ` set (snd (fold collect_attribute b acc)) \<subseteq> fst ` set (snd acc) \<union> {''role_id''}"
proof (induction b arbitrary: acc)
  case Nil
  show ?case by auto
next
  case (Cons kv b)
  have 1: "fst ` set (fst (fold collect_attribute b (collect_attribute kv acc)))
      \<subseteq> fst ` set (fst (collect_attribute kv acc)) \<union> profile_keys"
    and 2: "fst ` set (snd (fold collect_attribute b (collect_attribute kv acc)))
      \<subseteq> fst ` set (snd (collect_attribute kv acc)) \<union> {''role_id''}"
    using Cons.IH [of "collect_attribute kv acc"] by simp_all
  have "fst ` set (fst (fold collect_attribute b (collect_attribute kv acc)))
      \<subseteq> fst ` set (fst acc) \<union> profile_keys"
    using 1 collect_attribute_keys(1) [of kv acc] by blast
  moreover have "fst ` set (snd (fold collect_attribute b (collect_attribute kv acc)))
      \<subseteq> fst ` set (snd acc) \<union> {''role_id''}"
    using 2 collect_attribute_keys(2) [of kv acc] by blast
  ultimately show ?case by simp
qed

lemma hash_password_keys: "fst ` set (hash_password env xs) \<subseteq> fst ` set xs"
proof (cases "map_of xs ''password''")
  case None
  then show ?thesis by (simp add: hash_password_def)
next
  case (Some pw)
  then have "(''password'', pw) \<in> set xs" by (rule map_of_SomeD)
  then have "''password'' \<in> fst ` set xs" by force
  with Some show ?thesis by (simp add: hash_password_def AList.dom_update)
qed

lemma newAttributes_keys: "fst ` set (newAttributes_of env req) \<subseteq> profile_keys"
proof -
  have "fst ` set (fst (fold collect_attribute (body req) ([], []))) \<subseteq> profile_keys"
    using collect_keys [of "body req" "([], [])"] by simp
  with hash_password_keys [of env "fst (fold collect_attribute (body req) ([], []))"]
  show ?thesis unfolding newAttributes_of_def by (rule subset_trans)
qed

lemma newAdminAttributes_keys: "fst ` set (newAdminAttributes_of req) \<subseteq> {''role_id''}"
  using collect_keys [of "body req" "([], [])"]
  unfolding newAdminAttributes_of_def by simp


lemma set_attribute_frame:
  "user_id (set_attribute kv u) = user_id u"
  "''verified'' \<noteq> fst kv \<Longrightarrow> verified (set_attribute kv u) = verified u"
  "''role_id'' \<noteq> fst kv \<Longrightarrow> role_id (set_attribute kv u) = role_id u"
  "''username'' \<noteq> fst kv \<Longrightarrow> username (set_attribute kv u) = username u"
  "''email'' \<noteq> fst kv \<Longrightarrow> email (set_attribute kv u) = email u"
  "''name'' \<noteq> fst kv \<Longrightarrow> name (set_attribute kv u) = name u"
  "''password'' \<noteq> fst kv \<Longrightarrow> password (set_attribute kv u) = password u"
  by (cases kv; auto split: js_value.splits)+

lemma fold_set_attribute_user_id: "user_id (fold set_attribute attrs u) = user_id u"
  by (induction attrs arbitrary: u) (simp_all add: set_attribute_frame(1))

lemma fold_set_attribute_verified:
  "''verified'' \<notin> fst ` set attrs \<Longrightarrow> verified (fold set_attribute attrs u) = verified u"
  by (induction attrs arbitrary: u) (simp_all add: set_attribute_frame(2))

lemma fold_set_attribute_role_id:
  "''role_id'' \<notin> fst ` set attrs \<Longrightarrow> role_id (fold set_attribute attrs u) = role_id u"
  by (induction attrs arbitrary: u) (simp_all add: set_attribute_frame(3))

lemma fold_set_attribute_profile:
  "fst ` set attrs \<subseteq> {''role_id''} \<Longrightarrow>
     username (fold set_attribute attrs u) = username u
     \<and> email (fold set_attribute attrs u) = email u
     \<and> name (fold set_attribute attrs u) = name u
     \<and> password (fold set_attribute attrs u) = password u"
proof (induction attrs arbitrary: u)
  case Nil
  show ?case by simp
next
  case (Cons kv attrs)
  then have k: "fst kv = ''role_id''" and rest: "fst ` set attrs \<subseteq> {''role_id''}" by auto
  have "username (set_attribute kv u) = username u" "email (set_attribute kv u) = email u"
    "name (set_attribute kv u) = name u" "password (set_attribute kv u) = password u"
    using k by (simp_all add: set_attribute_frame)
  with Cons.IH [OF rest, of "set_attribute kv u"] show ?case by simp
qed


lemma User_setAttributes_eq:
  "User_setAttributes env k uid attrs w =
     (case throws env User_setAttributes_call k of
        Some c \<Rightarrow> Inl (Thrown c)
      | None \<Rightarrow> Inr (w\<lparr>users := write_attributes uid attrs (users w),
                       effects := effects w @ [SetAttributes uid attrs]\<rparr>))"
  by (simp add: User_setAttributes_def emit_def split: option.splits)

lemma updateUser_shape:
  fixes env req w
  defines "na \<equiv> js_strings (newAttributes_of env req)"
    and "aa \<equiv> js_strings (newAdminAttributes_of req)"
    and "self \<equiv> userId req = Some (params_id req) \<and> newAttributes_of env req \<noteq> []"
    and "adm \<equiv> role req = Some Admin \<and> newAdminAttributes_of req \<noteq> []"
  shows "\<exists>b1 b2 reply.
    updateUser env req w =
      w\<lparr>users := (if b2 then write_attributes (params_id req) aa else id)
                  ((if b1 then write_attributes (params_id req) na else id) (users w)),
        effects := effects w @ (if b1 then [SetAttributes (params_id req) na] else [])
                     @ (if b2 then [SetAttributes (params_id req) aa] else []) @ reply\<rparr>
    \<and> persistence_calls reply = []
    \<and> (b1 \<longrightarrow> self) \<and> (b2 \<longrightarrow> adm)
    \<and> (throws env User_setAttributes_call 0 = None \<and> throws env User_setAttributes_call 1 = None
         \<longrightarrow> b1 = self \<and> b2 = adm)"
proof -
  let ?reply = "if truthy (map_of (newAttributes_of env req) ''username'')
      then [Set_cookie (generateUpdatedUserAuthToken env req (newAttributes_of env req)),
            Status_send 200 (NewToken_body
              (generateUpdatedUserAuthToken env req (newAttributes_of env req)))]
      else [Status_send 204 No_body]"
  have reply: "persistence_calls ?reply = []" "persistence_calls [Log, Status_send 500 Generic_error] = []"
    by (simp_all add: persistence_calls_def)
  note defs = updateUser_def updateUser_try_def User_setAttributes_eq catch_block_def
    catch_500_def emit_def Let_def na_def aa_def self_def adm_def
  consider
      (stop1) "self" "throws env User_setAttributes_call 0 \<noteq> None"
    | (stop2) "self" "throws env User_setAttributes_call 0 = None"
        "adm" "throws env User_setAttributes_call 1 \<noteq> None"
    | (both) "self" "throws env User_setAttributes_call 0 = None"
        "adm" "throws env User_setAttributes_call 1 = None"
    | (only1) "self" "throws env User_setAttributes_call 0 = None" "\<not> adm"
    | (stop3) "\<not> self" "adm" "throws env User_setAttributes_call 1 \<noteq> None"
    | (only2) "\<not> self" "adm" "throws env User_setAttributes_call 1 = None"
    | (neither) "\<not> self" "\<not> adm"
    by blast
  then show ?thesis
  proof cases
    case stop1
    then show ?thesis
      using reply
      by (intro exI [of _ False] exI [of _ "[Log, Status_send 500 Generic_error]"])
        (auto simp: defs)
  next
    case stop2
    then show ?thesis
      using reply
      by (intro exI [of _ True] exI [of _ False] exI [of _ "[Log, Status_send 500 Generic_error]"])
        (auto simp: defs)
  next
    case both
    then show ?thesis
      using reply
      by (intro exI [of _ True] exI [of _ ?reply]) (auto simp: defs)
  next
    case only1
    then show ?thesis
      using reply
      by (intro exI [of _ True] exI [of _ False] exI [of _ ?reply]) (auto simp: defs)
  next
    case stop3
    then show ?thesis
      using reply
      by (intro exI [of _ False] exI [of _ "[Log, Status_send 500 Generic_error]"])
        (auto simp: defs)
  next
    case only2
    then show ?thesis
      using reply
      by (intro exI [of _ False] exI [of _ True] exI [of _ ?reply]) (auto simp: defs)
  next
    case neither
    then show ?thesis
      using reply
      by (intro exI [of _ False] exI [of _ ?reply]) (auto simp: defs)
  qed
qed


lemma write_attributes_frame:
  "map user_id (write_attributes uid attrs us) = map user_id us"
  "''verified'' \<notin> fst ` set attrs \<Longrightarrow> map verified (write_attributes uid attrs us) = map verified us"
  "''role_id'' \<notin> fst ` set attrs \<Longrightarrow> map role_id (write_attributes uid attrs us) = map role_id us"
  "filter (\<lambda>u. user_id u \<noteq> uid) (write_attributes uid attrs us) = filter (\<lambda>u. user_id u \<noteq> uid) us"
  by (induction us)
    (simp_all add: write_attributes_def fold_set_attribute_user_id fold_set_attribute_verified
      fold_set_attribute_role_id)

lemma write_attributes_profile:
  assumes "fst ` set attrs \<subseteq> {''role_id''}"
  shows "map username (write_attributes uid attrs us) = map username us
       \<and> map email (write_attributes uid attrs us) = map email us
       \<and> map name (write_attributes uid attrs us) = map name us
       \<and> map password (write_attributes uid attrs us) = map password us"
  using fold_set_attribute_profile [OF assms]
  by (induction us) (simp_all add: write_attributes_def)

lemma js_strings_keys: "fst ` set (js_strings attrs) = fst ` set attrs"
  by (force simp: js_strings_def)

lemma persistence_calls_append:
  "persistence_calls (xs @ ys) = persistence_calls xs @ persistence_calls ys"
  by (simp add: persistence_calls_def)

lemma profile_keys_not:
  "''verified'' \<notin> profile_keys" "''role_id'' \<notin> profile_keys"
  by (simp_all add: profile_keys_def)

text \<open>
  C8. Among the effects of an update request there are at most two calls of
  \<^verbatim>\<open>User.setAttributes\<close>, both for the id in the path: one with the profile attributes,
  made only when the caller's id equals that id, and one with the role attribute, made only
  when the caller is an Admin; when no call throws they are exactly the calls whose gate
  holds and whose attribute set is not empty. The profile set has no key besides username,
  email, name and password, the admin set none besides \<^verbatim>\<open>role_id\<close>. In the store, the
  identifiers and the verified flags of all rows, the rows of other users and the tokens
  are unchanged; the four profile columns are unchanged unless the caller is the target,
  and the role column is unchanged unless the caller is an Admin.
\<close>

theorem updateUser_gates:
  "(\<exists>es. effects (updateUser env req w) = effects w @ es
      \<and> set (persistence_calls es) \<subseteq>
           (if userId req = Some (params_id req)
            then {(params_id req, js_strings (newAttributes_of env req))} else {})
         \<union> (if role req = Some Admin
            then {(params_id req, js_strings (newAdminAttributes_of req))} else {})
      \<and> length (persistence_calls es) \<le> 2
      \<and> (throws env User_setAttributes_call 0 = None \<and> throws env User_setAttributes_call 1 = None
           \<longrightarrow> persistence_calls es =
                 (if userId req = Some (params_id req) \<and> newAttributes_of env req \<noteq> []
                  then [(params_id req, js_strings (newAttributes_of env req))] else [])
               @ (if role req = Some Admin \<and> newAdminAttributes_of req \<noteq> []
                  then [(params_id req, js_strings (newAdminAttributes_of req))] else [])))
   \<and> fst ` set (newAttributes_of env req) \<subseteq> {''username'', ''email'', ''name'', ''password''}
   \<and> fst ` set (newAdminAttributes_of req) \<subseteq> {''role_id''}
   \<and> map user_id (users (updateUser env req w)) = map user_id (users w)
   \<and> map verified (users (updateUser env req w)) = map verified (users w)
   \<and> tokens (updateUser env req w) = tokens w
   \<and> filter (\<lambda>u. user_id u \<noteq> params_id req) (users (updateUser env req w)) =
       filter (\<lambda>u. user_id u \<noteq> params_id req) (users w)
   \<and> (userId req \<noteq> Some (params_id req) \<longrightarrow>
         map username (users (updateUser env req w)) = map username (users w)
         \<and> map email (users (updateUser env req w)) = map email (users w)
         \<and> map name (users (updateUser env req w)) = map name (users w)
         \<and> map password (users (updateUser env req w)) = map password (users w))
   \<and> (role req \<noteq> Some Admin \<longrightarrow>
         map role_id (users (updateUser env req w)) = map role_id (users w))"
proof -
  let ?na = "js_strings (newAttributes_of env req)"
  let ?aa = "js_strings (newAdminAttributes_of req)"
  let ?id = "params_id req"
  obtain b1 b2 reply where
    shape: "updateUser env req w =
      w\<lparr>users := (if b2 then write_attributes ?id ?aa else id)
                  ((if b1 then write_attributes ?id ?na else id) (users w)),
        effects := effects w @ (if b1 then [SetAttributes ?id ?na] else [])
                     @ (if b2 then [SetAttributes ?id ?aa] else []) @ reply\<rparr>"
    and reply: "persistence_calls reply = []"
    and b1: "b1 \<longrightarrow> userId req = Some ?id \<and> newAttributes_of env req \<noteq> []"
    and b2: "b2 \<longrightarrow> role req = Some Admin \<and> newAdminAttributes_of req \<noteq> []"
    and exact: "throws env User_setAttributes_call 0 = None \<and>
        throws env User_setAttributes_call 1 = None \<longrightarrow>
        b1 = (userId req = Some ?id \<and> newAttributes_of env req \<noteq> []) \<and>
        b2 = (role req = Some Admin \<and> newAdminAttributes_of req \<noteq> [])"
    using updateUser_shape [of env req w] by blast
  have nk: "fst ` set ?na \<subseteq> profile_keys"
    using newAttributes_keys [of env req] by (simp add: js_strings_keys)
  have ak: "fst ` set ?aa \<subseteq> {''role_id''}"
    using newAdminAttributes_keys [of req] by (simp add: js_strings_keys)
  have nv: "''verified'' \<notin> fst ` set ?na" "''role_id'' \<notin> fst ` set ?na"
    using nk profile_keys_not by blast+
  have av: "''verified'' \<notin> fst ` set ?aa"
    using ak by auto
  let ?es = "(if b1 then [SetAttributes ?id ?na] else [])
               @ (if b2 then [SetAttributes ?id ?aa] else []) @ reply"
  have calls: "persistence_calls ?es =
      (if b1 then [(?id, ?na)] else []) @ (if b2 then [(?id, ?aa)] else [])"
    using reply by (simp add: persistence_calls_append) (simp add: persistence_calls_def)
  have eff: "effects (updateUser env req w) = effects w @ ?es"
    by (simp add: shape)
  have len: "length (persistence_calls ?es) \<le> 2"
    unfolding calls by simp
  have sub: "set (persistence_calls ?es) \<subseteq>
           (if userId req = Some ?id then {(?id, ?na)} else {})
         \<union> (if role req = Some Admin then {(?id, ?aa)} else {})"
    unfolding calls using b1 b2 by (cases b1; cases b2; simp)
  have ex: "throws env User_setAttributes_call 0 = None \<and> throws env User_setAttributes_call 1 = None
           \<longrightarrow> persistence_calls ?es =
                 (if userId req = Some ?id \<and> newAttributes_of env req \<noteq> []
                  then [(?id, ?na)] else [])
               @ (if role req = Some Admin \<and> newAdminAttributes_of req \<noteq> []
                  then [(?id, ?aa)] else [])"
  proof (intro impI)
    assume "throws env User_setAttributes_call 0 = None \<and> throws env User_setAttributes_call 1 = None"
    with exact have e1: "b1 = (userId req = Some ?id \<and> newAttributes_of env req \<noteq> [])"
      and e2: "b2 = (role req = Some Admin \<and> newAdminAttributes_of req \<noteq> [])"
      by simp_all
    show "persistence_calls ?es =
                 (if userId req = Some ?id \<and> newAttributes_of env req \<noteq> []
                  then [(?id, ?na)] else [])
               @ (if role req = Some Admin \<and> newAdminAttributes_of req \<noteq> []
                  then [(?id, ?aa)] else [])"
      unfolding calls by (simp only: e1 e2)
  qed
  have part1: "\<exists>es. effects (updateUser env req w) = effects w @ es
      \<and> set (persistence_calls es) \<subseteq>
           (if userId req = Some ?id then {(?id, ?na)} else {})
         \<union> (if role req = Some Admin then {(?id, ?aa)} else {})
      \<and> length (persistence_calls es) \<le> 2
      \<and> (throws env User_setAttributes_call 0 = None \<and> throws env User_setAttributes_call 1 = None
           \<longrightarrow> persistence_calls es =
                 (if userId req = Some ?id \<and> newAttributes_of env req \<noteq> []
                  then [(?id, ?na)] else [])
               @ (if role req = Some Admin \<and> newAdminAttributes_of req \<noteq> []
                  then [(?id, ?aa)] else []))"
    by (rule exI [of _ ?es]) (intro conjI eff sub len ex)
  have ids: "map user_id (users (updateUser env req w)) = map user_id (users w)"
    by (simp add: shape write_attributes_frame(1))
  have ver: "map verified (users (updateUser env req w)) = map verified (users w)"
    using nv(1) av by (simp add: shape write_attributes_frame(2))
  have tok: "tokens (updateUser env req w) = tokens w"
    by (simp add: shape)
  have others: "filter (\<lambda>u. user_id u \<noteq> ?id) (users (updateUser env req w)) =
       filter (\<lambda>u. user_id u \<noteq> ?id) (users w)"
    by (simp add: shape write_attributes_frame(4))
  have prof: "map username (users (updateUser env req w)) = map username (users w)
         \<and> map email (users (updateUser env req w)) = map email (users w)
         \<and> map name (users (updateUser env req w)) = map name (users w)
         \<and> map password (users (updateUser env req w)) = map password (users w)"
    if "userId req \<noteq> Some ?id"
  proof -
    from that b1 have "\<not> b1" by simp
    then show ?thesis
      using write_attributes_profile [OF ak, of ?id "users w"] by (simp add: shape)
  qed
  have rol: "map role_id (users (updateUser env req w)) = map role_id (users w)"
    if "role req \<noteq> Some Admin"
  proof -
    from that b2 have "\<not> b2" by simp
    then show ?thesis
      using nv(2) by (simp add: shape write_attributes_frame(3))
  qed
  have keys: "fst ` set (newAttributes_of env req) \<subseteq> {''username'', ''email'', ''name'', ''password''}"
    using newAttributes_keys [of env req] by (simp add: profile_keys_def)
  show ?thesis
    by (intro conjI impI part1 keys newAdminAttributes_keys ids ver tok others
          conjunct1 [OF prof] conjunct1 [OF conjunct2 [OF prof]]
          conjunct1 [OF conjunct2 [OF conjunct2 [OF prof]]]
          conjunct2 [OF conjunct2 [OF conjunct2 [OF prof]]] rol)
qed

theorem updateUser_gates_witness:
  "throws env_plain User_setAttributes_call 0 = None
   \<and> throws env_plain User_setAttributes_call 1 = None
   \<and> updateUser env_plain req_patch_self w_two_tokens =
       w_two_tokens\<lparr>users := [al\<lparr>username := ''al2'', role_id := JStr ''2''\<rparr>],
         effects := [SetAttributes ''u0'' [(''username'', JStr ''al2'')],
                     SetAttributes ''u0'' [(''role_id'', JStr ''2'')],
                     Set_cookie ''session:al2'', Status_send 200 (NewToken_body ''session:al2'')]\<rparr>
   \<and> userId req_patch_other \<noteq> Some (params_id req_patch_other)
   \<and> role req_patch_other \<noteq> Some Admin
   \<and> users (updateUser env_plain req_patch_other w_two_tokens) = users w_two_tokens"
proof -
  have 1: "updateUser env_plain req_patch_self w_two_tokens =
       w_two_tokens\<lparr>users := [al\<lparr>username := ''al2'', role_id := JStr ''2''\<rparr>],
         effects := [SetAttributes ''u0'' [(''username'', JStr ''al2'')],
                     SetAttributes ''u0'' [(''role_id'', JStr ''2'')],
                     Set_cookie ''session:al2'', Status_send 200 (NewToken_body ''session:al2'')]\<rparr>"
    by (simp add: update_defs example_defs store_defs)
  have 2: "users (updateUser env_plain req_patch_other w_two_tokens) = users w_two_tokens"
    by (simp add: update_defs example_defs store_defs)
  show ?thesis
    using 1 2 updateUser_gates [of env_plain req_patch_self w_two_tokens]
      updateUser_gates [of env_plain req_patch_other w_two_tokens]
    by (simp add: example_defs)
qed

text \<open>
  C9: a caller who is not the target user sends a username. Nothing is persisted, and yet
  a refreshed credential for that username is set as cookie and returned. Conversely the
  target user sending the empty username has it persisted and is answered 204.
\<close>

theorem updateUser_refreshes_without_change:
  "updateUser env_plain req_patch_other w_two_tokens =
     w_two_tokens\<lparr>effects := [Set_cookie ''session:mallory'',
                               Status_send 200 (NewToken_body ''session:mallory'')]\<rparr>
   \<and> updateUser env_plain req_patch_empty w_two_tokens =
     w_two_tokens\<lparr>users := [al\<lparr>username := []\<rparr>],
                   effects := [SetAttributes ''u0'' [(''username'', JStr [])],
                               Status_send 204 No_body]\<rparr>"
  by (simp add: update_defs example_defs store_defs)

text \<open>
  C10. When the store call does not throw, \<^verbatim>\<open>deleteUser\<close> removes the rows with the id in
  the path, leaves the tokens alone and answers 204 with no body, whoever the caller is
  (the result does not depend on the caller's id and role) and whether or not a row with
  that id existed.
\<close>

theorem deleteUser_unconditional:
  assumes "throws env User_deleteUser_call 0 = None"
  shows "users (deleteUser env req w) = filter (\<lambda>u. user_id u \<noteq> params_id req) (users w)
       \<and> tokens (deleteUser env req w) = tokens w
       \<and> effects (deleteUser env req w) = effects w @ [Status_send 204 No_body]
       \<and> deleteUser env (req\<lparr>userId := caller, role := r\<rparr>) w = deleteUser env req w"
  using assms
  by (simp add: deleteUser_def deleteUser_try_def User_deleteUser_def catch_block_def emit_def)

theorem deleteUser_unconditional_witness:
  "throws env_plain User_deleteUser_call 0 = None
   \<and> deleteUser env_plain req_delete_al w_two_tokens =
       w_two_tokens\<lparr>users := [], effects := [Status_send 204 No_body]\<rparr>
   \<and> deleteUser env_plain req_delete_nobody w_two_tokens =
       w_two_tokens\<lparr>effects := [Status_send 204 No_body]\<rparr>"
proof -
  have t: "throws env_plain User_deleteUser_call 0 = None"
    by (simp add: example_defs)
  have 1: "deleteUser env_plain req_delete_al w_two_tokens =
       w_two_tokens\<lparr>users := [], effects := [Status_send 204 No_body]\<rparr>"
    by (simp add: deleteUser_def deleteUser_try_def example_defs store_defs)
  have 2: "deleteUser env_plain req_delete_nobody w_two_tokens =
       w_two_tokens\<lparr>effects := [Status_send 204 No_body]\<rparr>"
    by (simp add: deleteUser_def deleteUser_try_def example_defs store_defs)
  show ?thesis
    using t 1 2 deleteUser_unconditional [OF t, of req_delete_al w_two_tokens None None]
      deleteUser_unconditional [OF t, of req_delete_nobody w_two_tokens None None]
    by simp
qed

end
